theory Spec2Isabelle
  imports Main "HOL-Library.Word"
begin

section \<open>Values of the program\<close>

text \<open>
  A JavaScript string is a sequence of 16-bit code units. The string methods the program
  calls (\<open>trim\<close>, \<open>split\<close>, \<open>endsWith\<close>, \<open>encodeURIComponent\<close>) work on code units,
  so the model keeps them. \<open>js\<close> writes an ASCII literal of the source as such a string.
\<close>

type_synonym jsstring = "16 word list"

definition js :: "string \<Rightarrow> jsstring" where
  "js s = map of_char s"

text \<open>
  The values that \<open>res.json()\<close> can deliver, and \<open>undefined\<close>, which reading a missing
  property gives. An object is the list of its own properties. Numbers are IEEE doubles
  in the program; it never computes with one, it only tests one for truthiness and
  interpolates one into a template string, so the number type is left open (\<open>'n\<close>) and
  these two operations are taken as parameters.
\<close>

datatype 'n jsval =
    Undefined
  | Null
  | Bool bool
  | Num 'n
  | Str jsstring
  | Arr "'n jsval list"
  | Obj "(jsstring \<times> 'n jsval) list"

record 'n numops =
  truthyNum :: "'n \<Rightarrow> bool"
  strNum :: "'n \<Rightarrow> jsstring"

datatype exn = TypeError | URIError | NetworkError | SyntaxError

text \<open>ToBoolean, as \<open>!x\<close>, \<open>x || y\<close> and \<open>x && y\<close> apply it.\<close>

fun truthy :: "'n numops \<Rightarrow> 'n jsval \<Rightarrow> bool" where
  "truthy N Undefined = False"
| "truthy N Null = False"
| "truthy N (Bool b) = b"
| "truthy N (Num n) = truthyNum N n"
| "truthy N (Str s) = (s \<noteq> [])"
| "truthy N (Arr vs) = True"
| "truthy N (Obj kvs) = True"

text \<open>The own property \<open>k\<close> of a parsed object, \<open>undefined\<close> when it has none.\<close>

definition ownProperty :: "(jsstring \<times> 'n jsval) list \<Rightarrow> jsstring \<Rightarrow> 'n jsval" where
  "ownProperty kvs k = (case map_of kvs k of None \<Rightarrow> Undefined | Some v \<Rightarrow> v)"

text \<open>
  Reading a property \<open>v.k\<close>. On \<open>null\<close> and \<open>undefined\<close> it throws a TypeError; on an
  object it gives the own property or \<open>undefined\<close>; on a string, number, boolean or array
  it gives \<open>undefined\<close> for every name that their prototypes do not define, which holds
  for all names the program reads (\<open>meals\<close>, \<open>idMeal\<close>, \<open>strMeal\<close>, \<open>strMealThumb\<close>,
  \<open>strInstructions\<close>, \<open>strCategory\<close>, \<open>strArea\<close>, \<open>strTags\<close>).
\<close>

fun getProp :: "'n jsval \<Rightarrow> jsstring \<Rightarrow> exn + 'n jsval" where
  "getProp Undefined k = Inl TypeError"
| "getProp Null k = Inl TypeError"
| "getProp (Obj kvs) k = Inr (ownProperty kvs k)"
| "getProp v k = Inr Undefined"

text \<open>Reading the element \<open>v[0]\<close>.\<close>

fun getIndex0 :: "'n jsval \<Rightarrow> exn + 'n jsval" where
  "getIndex0 Undefined = Inl TypeError"
| "getIndex0 Null = Inl TypeError"
| "getIndex0 (Arr []) = Inr Undefined"
| "getIndex0 (Arr (x # xs)) = Inr x"
| "getIndex0 (Str []) = Inr Undefined"
| "getIndex0 (Str (c # cs)) = Inr (Str [c])"
| "getIndex0 (Obj kvs) = Inr (ownProperty kvs (js ''0''))"
| "getIndex0 v = Inr Undefined"

section \<open>String methods\<close>

text \<open>
  \<open>String.prototype.trim\<close> removes WhiteSpace and LineTerminator code units from both
  ends: TAB, LF, VT, FF, CR, SP, NBSP, U+1680, U+2000 to U+200A, LS, PS, U+202F, U+205F,
  U+3000 and the byte order mark U+FEFF.
\<close>

definition isWhiteSpace :: "16 word \<Rightarrow> bool" where
  "isWhiteSpace c \<longleftrightarrow>
     (9 \<le> c \<and> c \<le> 13) \<or> c = 32 \<or> c = 160 \<or> c = 0x1680 \<or> (0x2000 \<le> c \<and> c \<le> 0x200A) \<or>
     c = 0x2028 \<or> c = 0x2029 \<or> c = 0x202F \<or> c = 0x205F \<or> c = 0x3000 \<or> c = 0xFEFF"

definition trim :: "jsstring \<Rightarrow> jsstring" where
  "trim s = rev (dropWhile isWhiteSpace (rev (dropWhile isWhiteSpace s)))"

text \<open>
  \<open>s.split(c)\<close> for a separator of one code unit: the scan collects the current segment
  in \<open>acc\<close> (reversed) and closes it at each separator. The empty string splits into one
  empty segment.
\<close>

fun splitFrom :: "'a \<Rightarrow> 'a list \<Rightarrow> 'a list \<Rightarrow> 'a list list" where
  "splitFrom c acc [] = [rev acc]"
| "splitFrom c acc (x # xs) =
     (if x = c then rev acc # splitFrom c [] xs else splitFrom c (x # acc) xs)"

definition split :: "'a \<Rightarrow> 'a list \<Rightarrow> 'a list list" where
  "split c s = splitFrom c [] s"

text \<open>\<open>xs.join(sep)\<close> on an array of strings.\<close>

fun join :: "'a list \<Rightarrow> 'a list list \<Rightarrow> 'a list" where
  "join sep [] = []"
| "join sep [x] = x"
| "join sep (x # y # ys) = x @ sep @ join sep (y # ys)"

text \<open>\<open>xs.slice(0, n)\<close> on an array is \<open>take n xs\<close>.\<close>

definition endsWith :: "'a list \<Rightarrow> 'a list \<Rightarrow> bool" where
  "endsWith s t \<longleftrightarrow> length t \<le> length s \<and> drop (length s - length t) s = t"

section \<open>The reduction of a detail payload\<close>

text \<open>
  Lines 83 to 85 of \<open>findRecipes\<close>, from the value \<open>v\<close> of \<open>meal.strInstructions\<close>:
  \<^verbatim>\<open>
  let summary = meal.strInstructions || '';
  summary = summary.split('.').slice(0, 2).join('.').trim();
  if (summary && !summary.endsWith('.')) summary += '.';
  \<close>
  A truthy value that is not a string has no \<open>split\<close> method, and the call throws.
\<close>

definition summarise :: "'n numops \<Rightarrow> 'n jsval \<Rightarrow> exn + jsstring" where
  "summarise N v =
     (case (if truthy N v then v else Str []) of
        Str t \<Rightarrow>
          (let summary = trim (join (js ''.'') (take 2 (split (of_char CHR ''.'') t)))
           in Inr (if summary \<noteq> [] \<and> \<not> endsWith summary (js ''.'')
                   then summary @ js ''.'' else summary))
      | _ \<Rightarrow> Inl TypeError)"

text \<open>Sequencing of steps that may throw: the first exception ends the computation.\<close>

definition andThen :: "exn + 'a \<Rightarrow> ('a \<Rightarrow> exn + 'b) \<Rightarrow> exn + 'b" where
  "andThen m f = (case m of Inl e \<Rightarrow> Inl e | Inr x \<Rightarrow> f x)"

text \<open>\<open>xs.map(f)\<close> with a callback that may throw: it stops at the first exception.\<close>

fun mapE :: "('a \<Rightarrow> exn + 'b) \<Rightarrow> 'a list \<Rightarrow> exn + 'b list" where
  "mapE f [] = Inr []"
| "mapE f (x # xs) =
     (case f x of
        Inl e \<Rightarrow> Inl e
      | Inr y \<Rightarrow> (case mapE f xs of Inl e \<Rightarrow> Inl e | Inr ys \<Rightarrow> Inr (y # ys)))"

text \<open>The object that \<open>setRecipes\<close> receives for one meal (lines 87 to 95).\<close>

record 'n recipe =
  id_recipe :: "'n jsval"
  name :: "'n jsval"
  thumbnail :: "'n jsval"
  summary :: jsstring
  strCategory :: "'n jsval"
  strArea :: "'n jsval"
  strTags :: "'n jsval"

text \<open>Lines 82 to 95: from \<open>meal\<close> to the displayed object, in the source's order of reads.\<close>

definition reduceMeal :: "'n numops \<Rightarrow> 'n jsval \<Rightarrow> exn + 'n recipe" where
  "reduceMeal N meal =
     andThen (getProp meal (js ''strInstructions'')) (\<lambda>instructions.
     andThen (summarise N instructions) (\<lambda>summary'.
     andThen (getProp meal (js ''idMeal'')) (\<lambda>idMeal.
     andThen (getProp meal (js ''strMeal'')) (\<lambda>strMeal.
     andThen (getProp meal (js ''strMealThumb'')) (\<lambda>strMealThumb.
     andThen (getProp meal (js ''strCategory'')) (\<lambda>strCategory'.
     andThen (getProp meal (js ''strArea'')) (\<lambda>strArea'.
     andThen (getProp meal (js ''strTags'')) (\<lambda>strTags'.
       Inr \<lparr>id_recipe = idMeal, name = strMeal, thumbnail = strMealThumb,
            summary = summary', strCategory = strCategory', strArea = strArea',
            strTags = strTags'\<rparr>))))))))"

text \<open>Lines 80 to 96, the callback of \<open>details.map\<close>: \<open>const meal = d.meals[0]\<close> and the rest.\<close>

definition reduce :: "'n numops \<Rightarrow> 'n jsval \<Rightarrow> exn + 'n recipe" where
  "reduce N d =
     andThen (getProp d (js ''meals'')) (\<lambda>meals.
     andThen (getIndex0 meals) (\<lambda>meal. reduceMeal N meal))"

section \<open>Building the request URLs\<close>

text \<open>
  ToString, as a template literal applies it to an interpolated value. An array joins
  the strings of its elements with a comma, \<open>null\<close> and \<open>undefined\<close> elements giving the
  empty string. A parsed object prints as \<open>[object Object]\<close>, unless it has an own property
  \<open>toString\<close>: that one is not callable, and the conversion throws a TypeError.
\<close>

fun toString :: "'n numops \<Rightarrow> 'n jsval \<Rightarrow> exn + jsstring"
  and toStrings :: "'n numops \<Rightarrow> 'n jsval list \<Rightarrow> exn + jsstring list" where
  "toString N Undefined = Inr (js ''undefined'')"
| "toString N Null = Inr (js ''null'')"
| "toString N (Bool b) = Inr (if b then js ''true'' else js ''false'')"
| "toString N (Num n) = Inr (strNum N n)"
| "toString N (Str s) = Inr s"
| "toString N (Arr vs) =
     (case toStrings N vs of Inl e \<Rightarrow> Inl e | Inr ss \<Rightarrow> Inr (join (js '','') ss))"
| "toString N (Obj kvs) =
     (if map_of kvs (js ''toString'') = None then Inr (js ''[object Object]'')
      else Inl TypeError)"
| "toStrings N [] = Inr []"
| "toStrings N (v # vs) =
     (case (if v = Undefined \<or> v = Null then Inr [] else toString N v) of
        Inl e \<Rightarrow> Inl e
      | Inr s \<Rightarrow> (case toStrings N vs of Inl e \<Rightarrow> Inl e | Inr ss \<Rightarrow> Inr (s # ss)))"

text \<open>
  \<open>encodeURIComponent\<close>: the unreserved code units (letters, digits and \<open>-_.!~*'()\<close>) stay;
  every other code point is written as the percent-escaped octets of its UTF-8 encoding. A
  surrogate code unit without its partner throws a URIError.
\<close>

definition uriUnreserved :: "16 word \<Rightarrow> bool" where
  "uriUnreserved c \<longleftrightarrow>
     (0x41 \<le> c \<and> c \<le> 0x5A) \<or> (0x61 \<le> c \<and> c \<le> 0x7A) \<or> (0x30 \<le> c \<and> c \<le> 0x39) \<or>
     c \<in> set (js ''-_.!~*'' @ [0x27] @ js ''()'')"

definition hexDigit :: "nat \<Rightarrow> 16 word" where
  "hexDigit n = js ''0123456789ABCDEF'' ! n"

definition percent :: "nat \<Rightarrow> jsstring" where
  "percent octet = [of_char CHR ''%'', hexDigit (octet div 16), hexDigit (octet mod 16)]"

definition utf8 :: "nat \<Rightarrow> nat list" where
  "utf8 cp =
     (if cp < 0x80 then [cp]
      else if cp < 0x800 then [0xC0 + cp div 0x40, 0x80 + cp mod 0x40]
      else if cp < 0x10000 then
        [0xE0 + cp div 0x1000, 0x80 + (cp div 0x40) mod 0x40, 0x80 + cp mod 0x40]
      else
        [0xF0 + cp div 0x40000, 0x80 + (cp div 0x1000) mod 0x40,
         0x80 + (cp div 0x40) mod 0x40, 0x80 + cp mod 0x40])"

definition escape :: "nat \<Rightarrow> exn + jsstring \<Rightarrow> exn + jsstring" where
  "escape cp rest =
     (case rest of Inl e \<Rightarrow> Inl e | Inr r \<Rightarrow> Inr (concat (map percent (utf8 cp)) @ r))"

fun encodeURIComponent :: "jsstring \<Rightarrow> exn + jsstring" where
  "encodeURIComponent [] = Inr []"
| "encodeURIComponent (c # cs) =
     (if uriUnreserved c then
        (case encodeURIComponent cs of Inl e \<Rightarrow> Inl e | Inr r \<Rightarrow> Inr (c # r))
      else if 0xDC00 \<le> c \<and> c \<le> 0xDFFF then Inl URIError
      else if c < 0xD800 \<or> 0xDBFF < c then escape (unat c) (encodeURIComponent cs)
      else
        (case cs of
           [] \<Rightarrow> Inl URIError
         | d # ds \<Rightarrow>
             if 0xDC00 \<le> d \<and> d \<le> 0xDFFF
             then escape ((unat c - 0xD800) * 0x400 + (unat d - 0xDC00) + 0x10000)
                    (encodeURIComponent ds)
             else Inl URIError))"

definition filterUrl :: "jsstring \<Rightarrow> jsstring" where
  "filterUrl encoded = js ''https://www.themealdb.com/api/json/v1/1/filter.php?i='' @ encoded"

text \<open>The URL of line 74, from the candidate \<open>m\<close>: reading \<open>m.idMeal\<close> and printing it.\<close>

definition lookupUrl :: "'n numops \<Rightarrow> 'n jsval \<Rightarrow> exn + jsstring" where
  "lookupUrl N m =
     andThen (getProp m (js ''idMeal'')) (\<lambda>idMeal.
     andThen (toString N idMeal) (\<lambda>i.
       Inr (js ''https://www.themealdb.com/api/json/v1/1/lookup.php?i='' @ i)))"

section \<open>The component state and the search\<close>

text \<open>The four \<open>useState\<close> cells of \<open>App\<close> that \<open>findRecipes\<close> reads or writes.\<close>

record 'n state =
  ingredients :: jsstring
  loading :: bool
  recipes :: "'n recipe list"
  error :: "jsstring option"

text \<open>
  What one call of \<open>findRecipes\<close> does to the outside, in the order in which it does it:
  the calls of the state setters, the requests handed to \<open>fetch\<close> (by URL) and the call
  of \<open>console.error\<close>.
\<close>

datatype 'n event =
    SetError "jsstring option"
  | SetLoading bool
  | SetRecipes "'n recipe list"
  | Fetch jsstring
  | ConsoleError

text \<open>
  Calling a setter does not change the state: React queues the update and commits the
  queued updates, in the order of the calls, when the running code gives control back.
  \<open>setState s e\<close> is the state that the update queued by the event \<open>e\<close> commits to from
  \<open>s\<close>, and \<open>after s es\<close> the state that the updates of the events \<open>es\<close> commit to. The
  points at which React commits are in \<open>findRecipesTurns\<close> below.
\<close>

fun setState :: "'n state \<Rightarrow> 'n event \<Rightarrow> 'n state" where
  "setState s (SetError e) = s\<lparr>error := e\<rparr>"
| "setState s (SetLoading b) = s\<lparr>loading := b\<rparr>"
| "setState s (SetRecipes rs) = s\<lparr>recipes := rs\<rparr>"
| "setState s (Fetch url) = s"
| "setState s ConsoleError = s"

definition after :: "'n state \<Rightarrow> 'n event list \<Rightarrow> 'n state" where
  "after s es = foldl setState s es"

fun requests :: "'n event list \<Rightarrow> jsstring list" where
  "requests [] = []"
| "requests (Fetch url # es) = url # requests es"
| "requests (e # es) = requests es"

text \<open>
  The network, as one call sees it. \<open>fetch(url)\<close> followed by \<open>json()\<close> either rejects
  (\<open>Inl\<close>: no connection, or a body that is not JSON) or delivers the parsed body.
  \<open>filterResponse\<close> settles the filter request, \<open>lookupResponse i\<close> the lookup request
  made for the candidate at position \<open>i\<close>.
\<close>

record 'n network =
  filterResponse :: "exn + 'n jsval"
  lookupResponse :: "nat \<Rightarrow> exn + 'n jsval"

text \<open>How a block ends: it runs to its end, returns early, or throws.\<close>

datatype completion = Normal | Return | Throw exn

definition emit :: "'n event list \<Rightarrow> 'n event list \<times> completion \<Rightarrow> 'n event list \<times> completion" where
  "emit es r = (es @ fst r, snd r)"

definition noRecipesMessage :: jsstring where
  "noRecipesMessage = js ''No recipes found for those ingredients. Try different words.''"

definition fetchErrorMessage :: jsstring where
  "fetchErrorMessage = js ''An error occurred while fetching recipes. Check your network.''"

definition emptyInputMessage :: jsstring where
  "emptyInputMessage = js ''Please enter at least one ingredient''"

text \<open>
  Line 70, \<open>data.meals.slice(0, 10)\<close>, on a truthy \<open>data.meals\<close>. Only an array has both
  the \<open>slice\<close> of line 70 and the \<open>map\<close> of line 73; for a string the call of \<open>map\<close>
  throws, for the other values the call of \<open>slice\<close> does, in both cases before any
  lookup request.
\<close>

definition limitedOf :: "'n jsval \<Rightarrow> exn + 'n jsval list" where
  "limitedOf meals = (case meals of Arr ms \<Rightarrow> Inr (take 10 ms) | _ \<Rightarrow> Inl TypeError)"

text \<open>
  Lines 73 to 75, \<open>limited.map(m => fetch(...).then(r => r.json()))\<close>: the requests are
  started one candidate after the other; a candidate whose URL cannot be built throws and
  ends the \<open>map\<close>, the requests before it having been started.
\<close>

fun detailPromises :: "'n numops \<Rightarrow> 'n jsval list \<Rightarrow> jsstring list \<times> exn option" where
  "detailPromises N [] = ([], None)"
| "detailPromises N (m # ms) =
     (case lookupUrl N m of
        Inl e \<Rightarrow> ([], Some e)
      | Inr url \<Rightarrow> (case detailPromises N ms of (urls, r) \<Rightarrow> (url # urls, r)))"

text \<open>
  \<open>Promise.all\<close>: it rejects when one of the promises rejects, and otherwise delivers their
  values in the order of the promises.
\<close>

definition promiseAll :: "(exn + 'a) list \<Rightarrow> exn + 'a list" where
  "promiseAll ps = mapE (\<lambda>p. p) ps"

text \<open>Lines 73 to 98: the requests for the candidates, the wait for all, the reduction.\<close>

definition detailStage :: "'n numops \<Rightarrow> 'n network \<Rightarrow> 'n jsval list \<Rightarrow> 'n event list \<times> completion" where
  "detailStage N net limited =
     (case detailPromises N limited of
        (urls, Some e) \<Rightarrow> (map Fetch urls, Throw e)
      | (urls, None) \<Rightarrow>
          emit (map Fetch urls)
            (case promiseAll (map (lookupResponse net) [0..<length limited]) of
               Inl e \<Rightarrow> ([], Throw e)
             | Inr details \<Rightarrow>
                 (case mapE (reduce N) details of
                    Inl e \<Rightarrow> ([], Throw e)
                  | Inr mapped \<Rightarrow> ([SetRecipes mapped], Normal))))"

text \<open>Lines 62 to 98: what follows \<open>const data = await res.json()\<close>.\<close>

definition searchStage :: "'n numops \<Rightarrow> 'n network \<Rightarrow> 'n jsval \<Rightarrow> 'n event list \<times> completion" where
  "searchStage N net data =
     (case getProp data (js ''meals'') of
        Inl e \<Rightarrow> ([], Throw e)
      | Inr meals \<Rightarrow>
          if \<not> truthy N meals then
            ([SetRecipes [], SetError (Some noRecipesMessage), SetLoading False], Return)
          else
            (case limitedOf meals of
               Inl e \<Rightarrow> ([], Throw e)
             | Inr limited \<Rightarrow> detailStage N net limited))"

text \<open>Lines 56 to 98, the body of the \<open>try\<close>.\<close>

definition tryBody :: "'n numops \<Rightarrow> 'n network \<Rightarrow> jsstring \<Rightarrow> 'n event list \<times> completion" where
  "tryBody N net query =
     (case encodeURIComponent query of
        Inl e \<Rightarrow> ([], Throw e)
      | Inr encoded \<Rightarrow>
          emit [Fetch (filterUrl encoded)]
            (case filterResponse net of
               Inl e \<Rightarrow> ([], Throw e)
             | Inr data \<Rightarrow> searchStage N net data))"

text \<open>Lines 99 to 104: \<open>catch\<close> runs after a throw, \<open>finally\<close> in every case.\<close>

definition catchFinally :: "'n event list \<times> completion \<Rightarrow> 'n event list" where
  "catchFinally r =
     fst r @
     (case snd r of
        Throw e \<Rightarrow> [ConsoleError, SetError (Some fetchErrorMessage)]
      | _ \<Rightarrow> []) @
     [SetLoading False]"

text \<open>Lines 44 to 105.\<close>

definition findRecipes :: "'n numops \<Rightarrow> 'n network \<Rightarrow> 'n state \<Rightarrow> 'n event list" where
  "findRecipes N net s =
     SetError None #
     (let query = trim (ingredients s) in
      if query = [] then [SetError (Some emptyInputMessage)]
      else SetLoading True # SetRecipes [] # catchFinally (tryBody N net query))"

text \<open>
  For each event of a call, the state that the updates queued up to it commit to. The
  states that React commits during the call are among them.
\<close>

fun statesOf :: "'n state \<Rightarrow> 'n event list \<Rightarrow> 'n state list" where
  "statesOf s [] = []"
| "statesOf s (e # es) = setState s e # statesOf (setState s e) es"

text \<open>
  The state that one call of \<open>findRecipes\<close> leaves when it has ended and all its updates
  are committed, and typing into the input field.
\<close>

definition invoke :: "'n numops \<Rightarrow> 'n network \<Rightarrow> 'n state \<Rightarrow> 'n state" where
  "invoke N net s = after s (findRecipes N net s)"

definition setIngredients :: "jsstring \<Rightarrow> 'n state \<Rightarrow> 'n state" where
  "setIngredients text s = s\<lparr>ingredients := text\<rparr>"

section \<open>The turns of a call and the committed state\<close>

text \<open>
  \<open>findRecipes\<close> is called from the press handler and runs in it up to its first
  \<open>await\<close>; each time it is resumed it runs up to the next \<open>await\<close> or to its end. A
  turn is the list of the events of one such run. The awaits are those of lines 59 and 60
  (\<open>await fetch(url)\<close>, \<open>await res.json()\<close>; no event lies between the two, so they end
  one turn) and of line 77 (\<open>await Promise.all(detailPromises)\<close>). React commits the
  updates queued in a turn when the turn has ended: a request handed to \<open>fetch\<close> in a turn
  starts while the state is still the one committed before that turn.

  The functions below are \<open>detailStage\<close>, \<open>searchStage\<close>, \<open>tryBody\<close>, \<open>catchFinally\<close> and
  \<open>findRecipes\<close> once more, with the events grouped into turns.
\<close>

text \<open>The events \<open>es\<close>, then an \<open>await\<close>, then the run \<open>r\<close>.\<close>

definition awaiting :: "'n event list \<Rightarrow> 'n event list list \<times> completion \<Rightarrow> 'n event list list \<times> completion" where
  "awaiting es r = (es # fst r, snd r)"

text \<open>The events \<open>es\<close> and then the turns \<open>ts\<close>, with no \<open>await\<close> between them.\<close>

definition startTurn :: "'n event list \<Rightarrow> 'n event list list \<Rightarrow> 'n event list list" where
  "startTurn es ts = (case ts of [] \<Rightarrow> [es] | t # ts' \<Rightarrow> (es @ t) # ts')"

text \<open>The turns \<open>ts\<close> and then the events \<open>es\<close>, with no \<open>await\<close> between them.\<close>

definition endTurn :: "'n event list list \<Rightarrow> 'n event list \<Rightarrow> 'n event list list" where
  "endTurn ts es = (case rev ts of [] \<Rightarrow> [es] | t # ts' \<Rightarrow> rev ts' @ [t @ es])"

text \<open>Lines 73 to 98: the \<open>await\<close> of line 77 follows the requests for the candidates.\<close>

definition detailTurns :: "'n numops \<Rightarrow> 'n network \<Rightarrow> 'n jsval list \<Rightarrow> 'n event list list \<times> completion" where
  "detailTurns N net limited =
     (case detailPromises N limited of
        (urls, Some e) \<Rightarrow> ([map Fetch urls], Throw e)
      | (urls, None) \<Rightarrow>
          awaiting (map Fetch urls)
            (case promiseAll (map (lookupResponse net) [0..<length limited]) of
               Inl e \<Rightarrow> ([[]], Throw e)
             | Inr details \<Rightarrow>
                 (case mapE (reduce N) details of
                    Inl e \<Rightarrow> ([[]], Throw e)
                  | Inr mapped \<Rightarrow> ([[SetRecipes mapped]], Normal))))"

text \<open>Lines 62 to 98.\<close>

definition searchTurns :: "'n numops \<Rightarrow> 'n network \<Rightarrow> 'n jsval \<Rightarrow> 'n event list list \<times> completion" where
  "searchTurns N net data =
     (case getProp data (js ''meals'') of
        Inl e \<Rightarrow> ([[]], Throw e)
      | Inr meals \<Rightarrow>
          if \<not> truthy N meals then
            ([[SetRecipes [], SetError (Some noRecipesMessage), SetLoading False]], Return)
          else
            (case limitedOf meals of
               Inl e \<Rightarrow> ([[]], Throw e)
             | Inr limited \<Rightarrow> detailTurns N net limited))"

text \<open>Lines 56 to 98: the awaits of lines 59 and 60 follow the filter request.\<close>

definition tryTurns :: "'n numops \<Rightarrow> 'n network \<Rightarrow> jsstring \<Rightarrow> 'n event list list \<times> completion" where
  "tryTurns N net query =
     (case encodeURIComponent query of
        Inl e \<Rightarrow> ([[]], Throw e)
      | Inr encoded \<Rightarrow>
          awaiting [Fetch (filterUrl encoded)]
            (case filterResponse net of
               Inl e \<Rightarrow> ([[]], Throw e)
             | Inr data \<Rightarrow> searchTurns N net data))"

text \<open>Lines 99 to 104: \<open>catch\<close> and \<open>finally\<close> run in the turn in which the \<open>try\<close> ended.\<close>

definition catchFinallyTurns :: "'n event list list \<times> completion \<Rightarrow> 'n event list list" where
  "catchFinallyTurns r =
     endTurn (fst r)
       ((case snd r of
           Throw e \<Rightarrow> [ConsoleError, SetError (Some fetchErrorMessage)]
         | _ \<Rightarrow> []) @
        [SetLoading False])"

text \<open>Lines 44 to 105: lines 45 to 53 run in the turn of the press handler.\<close>

definition findRecipesTurns :: "'n numops \<Rightarrow> 'n network \<Rightarrow> 'n state \<Rightarrow> 'n event list list" where
  "findRecipesTurns N net s =
     (let query = trim (ingredients s) in
      if query = [] then [[SetError None, SetError (Some emptyInputMessage)]]
      else startTurn [SetError None, SetLoading True, SetRecipes []]
             (catchFinallyTurns (tryTurns N net query)))"

text \<open>
  Each event of the turns \<open>ts\<close>, paired with the committed state at the moment of the
  event: the state \<open>s\<close> committed before its turn. The updates of a turn are committed
  when the turn has ended.
\<close>

fun observed :: "'n state \<Rightarrow> 'n event list list \<Rightarrow> ('n state \<times> 'n event) list" where
  "observed s [] = []"
| "observed s (t # ts) = map (Pair s) t @ observed (after s t) ts"

section \<open>The summary as the specification words it\<close>

text \<open>
  The specification's summary algorithm, step by step in its own words: take the raw
  instructions text (the empty string if absent); split it on the \<open>.\<close> character into
  segments; keep at most the first 2 segments; re-join them with \<open>.\<close> as separator; trim
  surrounding whitespace; if the result is non-empty and does not already end with \<open>.\<close>,
  append one \<open>.\<close>.
\<close>

definition specSummary :: "jsstring option \<Rightarrow> jsstring" where
  "specSummary instructions =
     (let dot = of_char CHR ''.'';
          text = (case instructions of None \<Rightarrow> [] | Some t \<Rightarrow> t);
          segments = split dot text;
          kept = take (min 2 (length segments)) segments;
          joined = join [dot] kept;
          trimmed = trim joined
      in if trimmed \<noteq> [] \<and> last trimmed \<noteq> dot then trimmed @ [dot] else trimmed)"

section \<open>Example data\<close>

text \<open>
  The examples contain no numbers. They are run over a number type with the single
  number 1, which is truthy and prints as \<open>1\<close>.
\<close>

definition exampleNumops :: "unit numops" where
  "exampleNumops = \<lparr>truthyNum = (\<lambda>n. True), strNum = (\<lambda>n. js ''1'')\<rparr>"

definition candidate :: "string \<Rightarrow> unit jsval" where
  "candidate i = Obj [(js ''idMeal'', Str (js i))]"

definition detail :: "string \<Rightarrow> string \<Rightarrow> unit jsval" where
  "detail i instructions =
     Obj [(js ''meals'',
           Arr [Obj [(js ''idMeal'', Str (js i)), (js ''strInstructions'', Str (js instructions))]])]"

definition idle :: "string \<Rightarrow> unit state" where
  "idle raw = \<lparr>ingredients = js raw, loading = False, recipes = [], error = None\<rparr>"

definition twoMeals :: "unit network" where
  "twoMeals =
     \<lparr>filterResponse = Inr (Obj [(js ''meals'', Arr [candidate ''1'', candidate ''2''])]),
      lookupResponse = (\<lambda>i. Inr (if i = 0 then detail ''1'' ''Boil water. Add pasta. Stir.''
                                  else detail ''2'' ''Mix well''))\<rparr>"

definition exampleRecipe :: "unit recipe" where
  "exampleRecipe =
     \<lparr>id_recipe = Str (js ''1''), name = Str (js ''Pasta''), thumbnail = Undefined,
      summary = js ''Boil water. Add pasta.'', strCategory = Undefined, strArea = Undefined,
      strTags = Undefined\<rparr>"

definition showing :: "string \<Rightarrow> unit state" where
  "showing raw = \<lparr>ingredients = js raw, loading = False, recipes = [exampleRecipe], error = None\<rparr>"

definition exampleMeal :: "unit jsval" where
  "exampleMeal =
     Obj [(js ''idMeal'', Str (js ''7'')), (js ''strMeal'', Str (js ''Cake'')),
          (js ''strInstructions'', Str (js ''Whisk. Fold. Bake. Cool.''))]"

text \<open>The lookup endpoint answers \<open>{"meals": null}\<close> for the second candidate.\<close>

definition unknownSecond :: "unit network" where
  "unknownSecond =
     twoMeals\<lparr>lookupResponse :=
       (\<lambda>i. Inr (if i = 0 then detail ''1'' ''Mix well'' else Obj [(js ''meals'', Null)]))\<rparr>"

text \<open>The second lookup request fails on the network.\<close>

definition failingSecond :: "unit network" where
  "failingSecond =
     twoMeals\<lparr>lookupResponse :=
       (\<lambda>i. if i = 0 then Inr (detail ''1'' ''Mix well'') else Inl NetworkError)\<rparr>"

text \<open>The filter endpoint answers \<open>{"meals": null}\<close>.\<close>

definition noMeals :: "unit network" where
  "noMeals = twoMeals\<lparr>filterResponse := Inr (Obj [(js ''meals'', Null)])\<rparr>"

text \<open>The filter endpoint answers with 15 candidates.\<close>

definition fifteenCandidates :: "unit jsval list" where
  "fifteenCandidates =
     map candidate
       [''52940'', ''53016'', ''52846'', ''52796'', ''52934'', ''52956'', ''52850'', ''52765'',
        ''52818'', ''52875'', ''52795'', ''52831'', ''52920'', ''52879'', ''53011'']"

definition fifteenMeals :: "unit network" where
  "fifteenMeals =
     \<lparr>filterResponse = Inr (Obj [(js ''meals'', Arr fifteenCandidates)]),
      lookupResponse = (\<lambda>i. Inr (detail ''1'' ''Mix well''))\<rparr>"

text \<open>A state that still shows the outcome of earlier calls: a list and a message.\<close>

definition stale :: "string \<Rightarrow> unit state" where
  "stale raw =
     \<lparr>ingredients = js raw, loading = False, recipes = [exampleRecipe],
      error = Some (js ''Please enter at least one ingredient'')\<rparr>"

text \<open>What the search shows for the two meals of \<open>twoMeals\<close>.\<close>

definition twoRecipes :: "unit recipe list" where
  "twoRecipes =
     [\<lparr>id_recipe = Str (js ''1''), name = Undefined, thumbnail = Undefined,
       summary = js ''Boil water. Add pasta.'', strCategory = Undefined, strArea = Undefined,
       strTags = Undefined\<rparr>,
      \<lparr>id_recipe = Str (js ''2''), name = Undefined, thumbnail = Undefined,
       summary = js ''Mix well.'', strCategory = Undefined, strArea = Undefined,
       strTags = Undefined\<rparr>]"

text \<open>
  The state after this use of the screen: type "egg" and search (two results), clear the
  field and search (rejected), type "egg" again.
\<close>

definition typedAgain :: "unit state" where
  "typedAgain =
     setIngredients (js ''egg'')
       (invoke exampleNumops twoMeals
          (setIngredients [] (invoke exampleNumops twoMeals (idle ''egg''))))"

definition lookupUrlOf :: "string \<Rightarrow> jsstring" where
  "lookupUrlOf i = js ''https://www.themealdb.com/api/json/v1/1/lookup.php?i='' @ js i"

section \<open>Reading properties\<close>

lemma ownProperty_Nil [simp]: "ownProperty [] k = Undefined"
  by (simp add: ownProperty_def)

lemma ownProperty_Cons [simp]:
  "ownProperty ((k', v) # kvs) k = (if k = k' then v else ownProperty kvs k)"
  by (simp add: ownProperty_def)

section \<open>The string methods and the summary\<close>

lemma splitFrom_not_Nil: "splitFrom c acc s \<noteq> []"
  by (induction s arbitrary: acc) auto

lemma join_Cons: "ys \<noteq> [] \<Longrightarrow> join sep (x # ys) = x @ sep @ join sep ys"
  by (cases ys) auto

lemma join_splitFrom: "join [c] (splitFrom c acc s) = rev acc @ s"
  by (induction s arbitrary: acc) (auto simp: join_Cons splitFrom_not_Nil)

lemma join_split: "join [c] (split c s) = s"
  by (simp add: split_def join_splitFrom)

lemma splitFrom_segments: "c \<notin> set acc \<Longrightarrow> \<forall>seg \<in> set (splitFrom c acc s). c \<notin> set seg"
proof (induction s arbitrary: acc)
  case Nil
  then show ?case by simp
next
  case (Cons x xs)
  show ?case
  proof (cases "x = c")
    case True
    then show ?thesis using Cons.IH [of "[]"] Cons.prems by simp
  next
    case False
    then show ?thesis using Cons.IH [of "x # acc"] Cons.prems by simp
  qed
qed

lemma split_segments: "seg \<in> set (split c s) \<Longrightarrow> c \<notin> set seg"
  using splitFrom_segments [of c "[]" s] by (simp add: split_def)

lemma take_min_length: "take (min n (length xs)) xs = take n xs"
  by (simp add: min_def)

lemma length_splitFrom: "length (splitFrom c acc s) = Suc (count_list s c)"
  by (induction s arbitrary: acc) auto

lemma endsWith_single: "endsWith s [c] \<longleftrightarrow> s \<noteq> [] \<and> last s = c"
proof (cases s rule: rev_cases)
  case Nil
  then show ?thesis by (simp add: endsWith_def)
next
  case (snoc ys y)
  then show ?thesis by (auto simp: endsWith_def)
qed

lemma summarise_text:
  assumes "v = Str t \<or> (\<not> truthy N v \<and> t = [])"
  shows "summarise N v = Inr (specSummary (Some t))"
proof -
  have "(if truthy N v then v else Str []) = Str t"
    using assms by auto
  then show ?thesis
    by (simp add: summarise_def specSummary_def Let_def js_def endsWith_single take_min_length)
qed

lemma specSummary_None: "specSummary None = []"
  by (simp add: specSummary_def Let_def split_def trim_def)

lemma specSummary_absent: "specSummary None = specSummary (Some [])"
  by (simp add: specSummary_def)

lemma getProp_total: "getProp meal k = Inr v \<Longrightarrow> \<exists>w. getProp meal k' = Inr w"
  by (cases meal) (auto split: option.splits)

lemma reduceMeal_summary:
  assumes "getProp meal (js ''strInstructions'') = Inr v" and "summarise N v = Inr t"
  shows "\<exists>r. reduceMeal N meal = Inr r \<and> summary r = t"
proof -
  obtain a where a: "getProp meal (js ''idMeal'') = Inr a"
    using getProp_total [OF assms(1)] by blast
  obtain b where b: "getProp meal (js ''strMeal'') = Inr b"
    using getProp_total [OF assms(1)] by blast
  obtain c where c: "getProp meal (js ''strMealThumb'') = Inr c"
    using getProp_total [OF assms(1)] by blast
  obtain d where d: "getProp meal (js ''strCategory'') = Inr d"
    using getProp_total [OF assms(1)] by blast
  obtain e where e: "getProp meal (js ''strArea'') = Inr e"
    using getProp_total [OF assms(1)] by blast
  obtain f where f: "getProp meal (js ''strTags'') = Inr f"
    using getProp_total [OF assms(1)] by blast
  show ?thesis
    by (simp add: reduceMeal_def andThen_def assms a b c d e f)
qed

lemma example_summaries:
  "summarise N (Str (js ''Boil water. Add pasta. Stir occasionally. Serve hot.'')) = Inr (js ''Boil water. Add pasta.'')"
  "summarise N (Str (js ''Mix well'')) = Inr (js ''Mix well.'')"
  "summarise N (Str []) = Inr []"
  "summarise N Undefined = Inr []"
  by (simp_all add: summarise_def js_def split_def trim_def endsWith_def isWhiteSpace_def)

text \<open>
  C1. For every detail record \<open>meal\<close>, the summary that \<open>findRecipes\<close> produces is the
  specification's: for instructions that are a string \<open>t\<close> it is \<open>specSummary (Some t)\<close>,
  for absent or \<open>null\<close> instructions it is \<open>specSummary None\<close>, which is the empty string.
  "Boil water. Add pasta. Stir occasionally. Serve hot." gives "Boil water. Add pasta.",
  "Mix well" gives "Mix well.", and empty or absent instructions give the empty summary.
\<close>

theorem summary_algorithm:
  "(getProp meal (js ''strInstructions'') = Inr (Str t) \<longrightarrow>
      (\<exists>r. reduceMeal N meal = Inr r \<and> summary r = specSummary (Some t))) \<and>
   (getProp meal (js ''strInstructions'') = Inr Undefined \<or>
    getProp meal (js ''strInstructions'') = Inr Null \<longrightarrow>
      (\<exists>r. reduceMeal N meal = Inr r \<and> summary r = specSummary None)) \<and>
   (\<exists>r. reduceMeal N (Obj [(js ''strInstructions'',
           Str (js ''Boil water. Add pasta. Stir occasionally. Serve hot.''))]) = Inr r \<and>
        summary r = js ''Boil water. Add pasta.'') \<and>
   (\<exists>r. reduceMeal N (Obj [(js ''strInstructions'', Str (js ''Mix well''))]) = Inr r \<and>
        summary r = js ''Mix well.'') \<and>
   (\<exists>r. reduceMeal N (Obj [(js ''strInstructions'', Str [])]) = Inr r \<and> summary r = []) \<and>
   (\<exists>r. reduceMeal N (Obj []) = Inr r \<and> summary r = []) \<and>
   specSummary None = []"
proof (intro conjI impI)
  assume "getProp meal (js ''strInstructions'') = Inr (Str t)"
  then show "\<exists>r. reduceMeal N meal = Inr r \<and> summary r = specSummary (Some t)"
    by (rule reduceMeal_summary) (simp add: summarise_text)
next
  assume h: "getProp meal (js ''strInstructions'') = Inr Undefined \<or>
    getProp meal (js ''strInstructions'') = Inr Null"
  then obtain v where v: "getProp meal (js ''strInstructions'') = Inr v" "\<not> truthy N v"
    by auto
  have "summarise N v = Inr (specSummary None)"
    using v(2) by (simp add: summarise_text specSummary_absent)
  with v(1) show "\<exists>r. reduceMeal N meal = Inr r \<and> summary r = specSummary None"
    by (rule reduceMeal_summary)
next
  show "\<exists>r. reduceMeal N (Obj [(js ''strInstructions'',
           Str (js ''Boil water. Add pasta. Stir occasionally. Serve hot.''))]) = Inr r \<and>
        summary r = js ''Boil water. Add pasta.''"
    by (rule reduceMeal_summary [where v = "Str (js ''Boil water. Add pasta. Stir occasionally. Serve hot.'')"])
      (simp_all add: example_summaries)
next
  show "\<exists>r. reduceMeal N (Obj [(js ''strInstructions'', Str (js ''Mix well''))]) = Inr r \<and>
        summary r = js ''Mix well.''"
    by (rule reduceMeal_summary [where v = "Str (js ''Mix well'')"])
      (simp_all add: example_summaries)
next
  show "\<exists>r. reduceMeal N (Obj [(js ''strInstructions'', Str [])]) = Inr r \<and> summary r = []"
    by (rule reduceMeal_summary [where v = "Str []"]) (simp_all add: example_summaries)
next
  show "\<exists>r. reduceMeal N (Obj []) = Inr r \<and> summary r = []"
    by (rule reduceMeal_summary [where v = Undefined]) (simp_all add: example_summaries)
next
  show "specSummary None = []"
    by (rule specSummary_None)
qed

theorem summary_algorithm_witness:
  "getProp exampleMeal (js ''strInstructions'') = Inr (Str (js ''Whisk. Fold. Bake. Cool.'')) \<and>
   (\<exists>r. reduceMeal exampleNumops exampleMeal = Inr r \<and>
        summary r = specSummary (Some (js ''Whisk. Fold. Bake. Cool.''))) \<and>
   specSummary (Some (js ''Whisk. Fold. Bake. Cool.'')) = js ''Whisk. Fold.'' \<and>
   getProp (candidate ''7'') (js ''strInstructions'') = Inr Undefined \<and>
   (\<exists>r. reduceMeal exampleNumops (candidate ''7'') = Inr r \<and> summary r = specSummary None)"
proof -
  have h1: "getProp exampleMeal (js ''strInstructions'') = Inr (Str (js ''Whisk. Fold. Bake. Cool.''))"
    by (simp add: exampleMeal_def js_def)
  have h2: "getProp (candidate ''7'') (js ''strInstructions'') = Inr Undefined"
    by (simp add: candidate_def js_def)
  have "summarise exampleNumops (Str (js ''Whisk. Fold. Bake. Cool.'')) = Inr (js ''Whisk. Fold.'')"
    by (simp add: summarise_def js_def split_def trim_def endsWith_def isWhiteSpace_def)
  moreover have "summarise exampleNumops (Str (js ''Whisk. Fold. Bake. Cool.'')) =
      Inr (specSummary (Some (js ''Whisk. Fold. Bake. Cool.'')))"
    by (rule summarise_text) simp
  ultimately have v: "specSummary (Some (js ''Whisk. Fold. Bake. Cool.'')) = js ''Whisk. Fold.''"
    by simp
  have c1: "\<exists>r. reduceMeal exampleNumops exampleMeal = Inr r \<and>
        summary r = specSummary (Some (js ''Whisk. Fold. Bake. Cool.''))"
    using summary_algorithm [of exampleMeal "js ''Whisk. Fold. Bake. Cool.''" exampleNumops] h1
    by (elim conjE) (rule mp)
  have c2: "\<exists>r. reduceMeal exampleNumops (candidate ''7'') = Inr r \<and> summary r = specSummary None"
    using summary_algorithm [of "candidate ''7''" "[]" exampleNumops] h2
    by (elim conjE) (rule mp, assumption, rule disjI1)
  show ?thesis
    by (intro conjI h1 h2 v c1 c2)
qed

section \<open>Input validation\<close>

lemma dropWhile_all_iff: "(\<forall>x \<in> set (dropWhile P xs). P x) \<longleftrightarrow> (\<forall>x \<in> set xs. P x)"
  by (induction xs) auto

lemma trim_empty_iff: "trim s = [] \<longleftrightarrow> list_all isWhiteSpace s"
  by (simp add: trim_def dropWhile_all_iff list_all_iff)

lemma findRecipes_rejected:
  assumes "list_all isWhiteSpace (ingredients s)"
  shows "findRecipes N net s = [SetError None, SetError (Some emptyInputMessage)]"
  using assms by (simp add: findRecipes_def trim_empty_iff)

text \<open>
  C7. When the raw input is empty or consists of whitespace only, \<open>findRecipes\<close> does
  nothing but clear and then set \<open>error\<close> to "Please enter at least one ingredient": it
  starts no request, never calls \<open>setLoading\<close>, and \<open>loading\<close> keeps the value it had.
\<close>

theorem empty_input_rejected:
  assumes "list_all isWhiteSpace (ingredients s)"
  shows "findRecipes N net s =
           [SetError None, SetError (Some (js ''Please enter at least one ingredient''))] \<and>
         requests (findRecipes N net s) = [] \<and>
         error (invoke N net s) = Some (js ''Please enter at least one ingredient'') \<and>
         loading (invoke N net s) = loading s"
  using findRecipes_rejected [OF assms, of N net]
  by (simp add: invoke_def after_def emptyInputMessage_def)

theorem empty_input_rejected_witness:
  "list_all isWhiteSpace (ingredients (idle ''   '')) \<and>
   findRecipes exampleNumops twoMeals (idle ''   '') =
     [SetError None, SetError (Some (js ''Please enter at least one ingredient''))] \<and>
   requests (findRecipes exampleNumops twoMeals (idle ''   '')) = [] \<and>
   error (invoke exampleNumops twoMeals (idle ''   '')) =
     Some (js ''Please enter at least one ingredient'') \<and>
   loading (invoke exampleNumops twoMeals (idle ''   '')) = False"
proof -
  have h: "list_all isWhiteSpace (ingredients (idle ''   ''))"
    by (simp add: idle_def js_def isWhiteSpace_def)
  have l: "loading (idle ''   '') = False"
    by (simp add: idle_def)
  show ?thesis
    using h empty_input_rejected [OF h, of exampleNumops twoMeals] l by simp
qed

text \<open>
  C10. When the raw input is empty or consists of whitespace only, the call writes
  \<open>error\<close> and nothing else: \<open>results\<close> is what it was before, so a list shown by an
  earlier search stays in the state next to the new message.
\<close>

theorem rejected_input_keeps_results:
  assumes "list_all isWhiteSpace (ingredients s)"
  shows "invoke N net s = s\<lparr>error := Some (js ''Please enter at least one ingredient'')\<rparr> \<and>
         recipes (invoke N net s) = recipes s"
  using findRecipes_rejected [OF assms, of N net]
  by (simp add: invoke_def after_def emptyInputMessage_def)

theorem rejected_input_keeps_results_witness:
  "list_all isWhiteSpace (ingredients (showing '' '')) \<and>
   invoke exampleNumops twoMeals (showing '' '') =
     (showing '' '')\<lparr>error := Some (js ''Please enter at least one ingredient'')\<rparr> \<and>
   recipes (invoke exampleNumops twoMeals (showing '' '')) = [exampleRecipe]"
proof -
  have h: "list_all isWhiteSpace (ingredients (showing '' ''))"
    by (simp add: showing_def js_def isWhiteSpace_def)
  have r: "recipes (showing '' '') = [exampleRecipe]"
    by (simp add: showing_def)
  show ?thesis
    using h rejected_input_keeps_results [OF h, of exampleNumops twoMeals] r by simp
qed

section \<open>The shape of a search\<close>

lemma findRecipes_searching:
  assumes "trim (ingredients s) \<noteq> []"
  shows "findRecipes N net s =
           SetError None # SetLoading True # SetRecipes [] #
           catchFinally (tryBody N net (trim (ingredients s)))"
  using assms by (simp add: findRecipes_def Let_def)

lemma catchFinally_emit: "catchFinally (emit es r) = es @ catchFinally r"
  by (simp add: catchFinally_def emit_def)

lemma detailStage_shape:
  "\<exists>urls. (\<exists>e. detailStage N net limited = (map Fetch urls, Throw e)) \<or>
          (\<exists>mapped. detailStage N net limited = (map Fetch urls @ [SetRecipes mapped], Normal))"
  by (auto simp: detailStage_def emit_def split: prod.splits option.splits sum.splits)

lemma searchStage_shape:
  "\<exists>urls. (\<exists>e. searchStage N net data = (map Fetch urls, Throw e)) \<or>
          searchStage N net data =
            (map Fetch urls @ [SetRecipes [], SetError (Some noRecipesMessage), SetLoading False],
             Return) \<or>
          (\<exists>mapped. searchStage N net data = (map Fetch urls @ [SetRecipes mapped], Normal))"
proof (cases "getProp data (js ''meals'')")
  case (Inl e)
  then have "searchStage N net data = (map Fetch [], Throw e)"
    by (simp add: searchStage_def)
  then show ?thesis by blast
next
  case (Inr meals)
  show ?thesis
  proof (cases "truthy N meals")
    case False
    with Inr have "searchStage N net data =
        (map Fetch [] @ [SetRecipes [], SetError (Some noRecipesMessage), SetLoading False], Return)"
      by (simp add: searchStage_def)
    then show ?thesis by blast
  next
    case True
    show ?thesis
    proof (cases "limitedOf meals")
      case (Inl e)
      with Inr True have "searchStage N net data = (map Fetch [], Throw e)"
        by (simp add: searchStage_def)
      then show ?thesis by blast
    next
      case (Inr limited)
      with \<open>getProp data (js ''meals'') = Inr meals\<close> True
      have "searchStage N net data = detailStage N net limited"
        by (simp add: searchStage_def)
      then show ?thesis
        using detailStage_shape [of N net limited] by auto
    qed
  qed
qed

lemma tryBody_shape:
  "\<exists>urls. (\<exists>e. tryBody N net q = (map Fetch urls, Throw e)) \<or>
          tryBody N net q =
            (map Fetch urls @ [SetRecipes [], SetError (Some noRecipesMessage), SetLoading False],
             Return) \<or>
          (\<exists>mapped. tryBody N net q = (map Fetch urls @ [SetRecipes mapped], Normal))"
proof (cases "encodeURIComponent q")
  case (Inl e)
  then have "tryBody N net q = (map Fetch [], Throw e)"
    by (simp add: tryBody_def)
  then show ?thesis by blast
next
  case (Inr encoded)
  show ?thesis
  proof (cases "filterResponse net")
    case (Inl e)
    with Inr have "tryBody N net q = (map Fetch [filterUrl encoded], Throw e)"
      by (simp add: tryBody_def emit_def)
    then show ?thesis by blast
  next
    case (Inr data)
    with \<open>encodeURIComponent q = Inr encoded\<close>
    have t: "tryBody N net q = emit [Fetch (filterUrl encoded)] (searchStage N net data)"
      by (simp add: tryBody_def)
    from searchStage_shape [of N net data] obtain urls where
      "(\<exists>e. searchStage N net data = (map Fetch urls, Throw e)) \<or>
       searchStage N net data =
         (map Fetch urls @ [SetRecipes [], SetError (Some noRecipesMessage), SetLoading False],
          Return) \<or>
       (\<exists>mapped. searchStage N net data = (map Fetch urls @ [SetRecipes mapped], Normal))"
      by blast
    then have
      "(\<exists>e. tryBody N net q = (map Fetch (filterUrl encoded # urls), Throw e)) \<or>
       tryBody N net q =
         (map Fetch (filterUrl encoded # urls) @
            [SetRecipes [], SetError (Some noRecipesMessage), SetLoading False], Return) \<or>
       (\<exists>mapped. tryBody N net q =
          (map Fetch (filterUrl encoded # urls) @ [SetRecipes mapped], Normal))"
      by (auto simp: t emit_def)
    then show ?thesis by blast
  qed
qed

text \<open>The three ways in which a call that passes validation runs.\<close>

lemma findRecipes_shape:
  assumes "trim (ingredients s) \<noteq> []"
  shows "\<exists>urls.
           findRecipes N net s =
             [SetError None, SetLoading True, SetRecipes []] @ map Fetch urls @
             [ConsoleError, SetError (Some fetchErrorMessage), SetLoading False] \<or>
           findRecipes N net s =
             [SetError None, SetLoading True, SetRecipes []] @ map Fetch urls @
             [SetRecipes [], SetError (Some noRecipesMessage), SetLoading False, SetLoading False] \<or>
           (\<exists>mapped. findRecipes N net s =
             [SetError None, SetLoading True, SetRecipes []] @ map Fetch urls @
             [SetRecipes mapped, SetLoading False])"
proof -
  from tryBody_shape [of N net "trim (ingredients s)"] obtain urls where
    "(\<exists>e. tryBody N net (trim (ingredients s)) = (map Fetch urls, Throw e)) \<or>
     tryBody N net (trim (ingredients s)) =
       (map Fetch urls @ [SetRecipes [], SetError (Some noRecipesMessage), SetLoading False],
        Return) \<or>
     (\<exists>mapped. tryBody N net (trim (ingredients s)) =
        (map Fetch urls @ [SetRecipes mapped], Normal))"
    by blast
  then show ?thesis
    by (auto simp: findRecipes_searching [OF assms] catchFinally_def)
qed

lemma after_append: "after s (es @ fs) = after (after s es) fs"
  by (simp add: after_def)

lemma after_fetches: "after s (map Fetch urls) = s"
  by (induction urls) (simp_all add: after_def)

lemma statesOf_append: "statesOf s (es @ fs) = statesOf s es @ statesOf (after s es) fs"
  by (induction es arbitrary: s) (simp_all add: after_def)

lemma statesOf_fetches: "set (statesOf s (map Fetch urls)) \<subseteq> {s}"
  by (induction urls) simp_all

lemma requests_append: "requests (es @ fs) = requests es @ requests fs"
  by (induction es rule: requests.induct) simp_all

lemma requests_fetches: "requests (map Fetch urls) = urls"
  by (induction urls) simp_all

section \<open>The empty result\<close>

text \<open>
  C4. When the filter request delivers a JSON value whose \<open>meals\<close> is \<open>null\<close> or absent,
  the call ends with empty \<open>results\<close> and the message "No recipes found for those
  ingredients. Try different words.": the filter request is the only request, nothing is
  logged as an error, and \<open>loading\<close> is false at the end.
\<close>

theorem no_meals_is_empty_result:
  assumes "trim (ingredients s) \<noteq> []"
    and "encodeURIComponent (trim (ingredients s)) = Inr encoded"
    and "filterResponse net = Inr data"
    and "getProp data (js ''meals'') = Inr Null \<or> getProp data (js ''meals'') = Inr Undefined"
  shows "findRecipes N net s =
           [SetError None, SetLoading True, SetRecipes [], Fetch (filterUrl encoded),
            SetRecipes [],
            SetError (Some (js ''No recipes found for those ingredients. Try different words.'')),
            SetLoading False, SetLoading False] \<and>
         requests (findRecipes N net s) = [filterUrl encoded] \<and>
         ConsoleError \<notin> set (findRecipes N net s) \<and>
         recipes (invoke N net s) = [] \<and>
         error (invoke N net s) =
           Some (js ''No recipes found for those ingredients. Try different words.'') \<and>
         \<not> loading (invoke N net s)"
proof -
  from assms(4) obtain meals where m: "getProp data (js ''meals'') = Inr meals" "\<not> truthy N meals"
    by auto
  have "searchStage N net data =
      ([SetRecipes [], SetError (Some noRecipesMessage), SetLoading False], Return)"
    using m by (simp add: searchStage_def)
  then have "findRecipes N net s =
      [SetError None, SetLoading True, SetRecipes [], Fetch (filterUrl encoded), SetRecipes [],
       SetError (Some noRecipesMessage), SetLoading False, SetLoading False]"
    using assms(2,3)
    by (simp add: findRecipes_searching [OF assms(1)] tryBody_def emit_def catchFinally_def)
  then show ?thesis
    by (simp add: invoke_def after_def noRecipesMessage_def)
qed

theorem no_meals_is_empty_result_witness:
  "trim (ingredients (stale ''egg'')) \<noteq> [] \<and>
   encodeURIComponent (trim (ingredients (stale ''egg''))) = Inr (js ''egg'') \<and>
   filterResponse noMeals = Inr (Obj [(js ''meals'', Null)]) \<and>
   getProp (Obj [(js ''meals'', Null)] :: unit jsval) (js ''meals'') = Inr Null \<and>
   requests (findRecipes exampleNumops noMeals (stale ''egg'')) = [filterUrl (js ''egg'')] \<and>
   recipes (invoke exampleNumops noMeals (stale ''egg'')) = [] \<and>
   error (invoke exampleNumops noMeals (stale ''egg'')) =
     Some (js ''No recipes found for those ingredients. Try different words.'') \<and>
   \<not> loading (invoke exampleNumops noMeals (stale ''egg''))"
proof -
  have t: "trim (ingredients (stale ''egg'')) = js ''egg''"
    by (simp add: stale_def js_def trim_def isWhiteSpace_def)
  have h1: "trim (ingredients (stale ''egg'')) \<noteq> []"
    by (simp add: t) (simp add: js_def)
  have h2: "encodeURIComponent (trim (ingredients (stale ''egg''))) = Inr (js ''egg'')"
    by (simp add: t) (simp add: js_def uriUnreserved_def)
  have h3: "filterResponse noMeals = Inr (Obj [(js ''meals'', Null)])"
    by (simp add: noMeals_def)
  have h4: "getProp (Obj [(js ''meals'', Null)] :: unit jsval) (js ''meals'') = Inr Null"
    by simp
  have h4': "getProp (Obj [(js ''meals'', Null)] :: unit jsval) (js ''meals'') = Inr Null \<or>
      getProp (Obj [(js ''meals'', Null)] :: unit jsval) (js ''meals'') = Inr Undefined"
    using h4 by (rule disjI1)
  show ?thesis
    using h1 h2 h3 h4 no_meals_is_empty_result [OF h1 h2 h3 h4', of exampleNumops]
    by simp
qed

section \<open>A failing lookup\<close>

lemma mapE_Inl: "x \<in> set xs \<Longrightarrow> f x = Inl e \<Longrightarrow> \<exists>e'. mapE f xs = Inl e'"
  by (induction xs) (auto split: sum.splits)

lemma promiseAll_rejects:
  assumes "i < n" and "f i = Inl e"
  shows "\<exists>e'. promiseAll (map f [0..<n]) = Inl e'"
proof -
  have "f i \<in> set (map f [0..<n])"
    using assms(1) by simp
  then show ?thesis
    unfolding promiseAll_def using assms(2) by (rule mapE_Inl [where f = "\<lambda>p. p"])
qed

lemma detailStage_rejected:
  assumes "i < length limited" and "lookupResponse net i = Inl e"
  shows "\<exists>urls e'. detailStage N net limited = (map Fetch urls, Throw e')"
proof -
  obtain urls r where d: "detailPromises N limited = (urls, r)"
    by (cases "detailPromises N limited")
  obtain e' where p: "promiseAll (map (lookupResponse net) [0..<length limited]) = Inl e'"
    using promiseAll_rejects [of i "length limited" "lookupResponse net" e] assms by blast
  show ?thesis
  proof (cases r)
    case None
    with d p have "detailStage N net limited = (map Fetch urls, Throw e')"
      by (simp add: detailStage_def emit_def)
    then show ?thesis by blast
  next
    case (Some e'')
    with d have "detailStage N net limited = (map Fetch urls, Throw e'')"
      by (simp add: detailStage_def)
    then show ?thesis by blast
  qed
qed

lemma tryBody_throws_or:
  assumes "filterResponse net = Inr data"
  shows "(\<exists>e. tryBody N net q = ([], Throw e)) \<or>
         (\<exists>encoded. tryBody N net q = emit [Fetch (filterUrl encoded)] (searchStage N net data))"
  using assms by (cases "encodeURIComponent q") (auto simp: tryBody_def)

text \<open>
  C3. When one of the lookup requests of a search fails (its \<open>fetch\<close> or its \<open>json()\<close>
  rejects), the call ends with \<open>error\<close> set to "An error occurred while fetching recipes.
  Check your network.", with empty \<open>results\<close> and \<open>loading\<close> false, and at no point of
  the call has \<open>setRecipes\<close> received a non-empty list.
\<close>

theorem failed_lookup_fails_search:
  assumes "trim (ingredients s) \<noteq> []"
    and "filterResponse net = Inr data"
    and "getProp data (js ''meals'') = Inr (Arr ms)"
    and "i < min (length ms) 10"
    and "lookupResponse net i = Inl e"
  shows "error (invoke N net s) =
           Some (js ''An error occurred while fetching recipes. Check your network.'') \<and>
         recipes (invoke N net s) = [] \<and>
         \<not> loading (invoke N net s) \<and>
         (\<forall>rs. SetRecipes rs \<in> set (findRecipes N net s) \<longrightarrow> rs = [])"
proof -
  have i: "i < length (take 10 ms)"
    using assms(4) by simp
  have "searchStage N net data = detailStage N net (take 10 ms)"
    using assms(3) by (simp add: searchStage_def limitedOf_def)
  with detailStage_rejected [OF i assms(5), of N]
  obtain urls e' where "searchStage N net data = (map Fetch urls, Throw e')"
    by auto
  with tryBody_throws_or [OF assms(2), of N "trim (ingredients s)"]
  obtain urls' e'' where "tryBody N net (trim (ingredients s)) = (map Fetch urls', Throw e'')"
    by (auto simp: emit_def) (metis list.simps(9))
  then have f: "findRecipes N net s =
      [SetError None, SetLoading True, SetRecipes []] @ map Fetch urls' @
      [ConsoleError, SetError (Some fetchErrorMessage), SetLoading False]"
    by (simp add: findRecipes_searching [OF assms(1)] catchFinally_def)
  have "after s (findRecipes N net s) =
      s\<lparr>error := Some fetchErrorMessage, recipes := [], loading := False\<rparr>"
    unfolding f after_append after_fetches by (simp add: after_def)
  moreover have "\<forall>rs. SetRecipes rs \<in> set (findRecipes N net s) \<longrightarrow> rs = []"
    unfolding f by auto
  ultimately show ?thesis
    by (simp add: invoke_def fetchErrorMessage_def)
qed

theorem failed_lookup_fails_search_witness:
  "trim (ingredients (idle ''egg'')) \<noteq> [] \<and>
   filterResponse failingSecond = Inr (Obj [(js ''meals'', Arr [candidate ''1'', candidate ''2''])]) \<and>
   getProp (Obj [(js ''meals'', Arr [candidate ''1'', candidate ''2''])]) (js ''meals'') =
     Inr (Arr [candidate ''1'', candidate ''2'']) \<and>
   1 < min (length [candidate ''1'', candidate ''2'']) 10 \<and>
   lookupResponse failingSecond 1 = Inl NetworkError \<and>
   SetRecipes [] \<in> set (findRecipes exampleNumops failingSecond (idle ''egg'')) \<and>
   error (invoke exampleNumops failingSecond (idle ''egg'')) =
     Some (js ''An error occurred while fetching recipes. Check your network.'') \<and>
   recipes (invoke exampleNumops failingSecond (idle ''egg'')) = [] \<and>
   \<not> loading (invoke exampleNumops failingSecond (idle ''egg''))"
proof -
  have h1: "trim (ingredients (idle ''egg'')) \<noteq> []"
    by (simp add: idle_def js_def trim_def isWhiteSpace_def)
  have h2: "filterResponse failingSecond =
      Inr (Obj [(js ''meals'', Arr [candidate ''1'', candidate ''2''])])"
    by (simp add: failingSecond_def twoMeals_def)
  have h3: "getProp (Obj [(js ''meals'', Arr [candidate ''1'', candidate ''2''])]) (js ''meals'') =
      Inr (Arr [candidate ''1'', candidate ''2''])"
    by simp
  have h4: "1 < min (length [candidate ''1'', candidate ''2'']) 10"
    by simp
  have h5: "lookupResponse failingSecond 1 = Inl NetworkError"
    by (simp add: failingSecond_def)
  have h6: "SetRecipes [] \<in> set (findRecipes exampleNumops failingSecond (idle ''egg''))"
    by (simp add: findRecipes_def idle_def js_def trim_def isWhiteSpace_def)
  show ?thesis
    using h1 h2 h3 h4 h5 h6 failed_lookup_fails_search [OF h1 h2 h3 h4 h5, of exampleNumops]
    by simp
qed

section \<open>The setter calls before the requests\<close>

lemma after_Nil: "after s [] = s"
  by (simp add: after_def)

lemma after_Cons: "after s (e # es) = after (setState s e) es"
  by (simp add: after_def)

lemma fetch_position:
  assumes "pre @ map Fetch urls @ rest = es1 @ Fetch url # es2"
    and "\<forall>u. Fetch u \<notin> set pre" and "\<forall>u. Fetch u \<notin> set rest"
  shows "\<exists>k. es1 = pre @ map Fetch (take k urls)"
proof -
  from assms(1) consider
    zs where "pre = es1 @ zs" "zs @ map Fetch urls @ rest = Fetch url # es2" |
    zs where "pre @ zs = es1" "map Fetch urls @ rest = zs @ Fetch url # es2"
    by (auto simp: append_eq_append_conv2)
  then show ?thesis
  proof cases
    case 1
    show ?thesis
    proof (cases zs)
      case Nil
      with 1 have "es1 = pre @ map Fetch (take 0 urls)" by simp
      then show ?thesis ..
    next
      case (Cons z zs')
      with 1 have "Fetch url \<in> set pre" by simp
      with assms(2) show ?thesis by simp
    qed
  next
    case 2
    from 2(2) consider
      ws where "map Fetch urls = zs @ ws" |
      ws where "rest = ws @ Fetch url # es2"
      by (auto simp: append_eq_append_conv2)
    then show ?thesis
    proof cases
      case 1
      then have "zs = map Fetch (take (length zs) urls)"
        by (metis append_eq_conv_conj take_map)
      with 2(1) have "es1 = pre @ map Fetch (take (length zs) urls)" by simp
      then show ?thesis ..
    next
      case 2
      then have "Fetch url \<in> set rest" by simp
      with assms(3) show ?thesis by simp
    qed
  qed
qed

text \<open>
  The setter calls that clear \<open>error\<close> and \<open>results\<close> (and set \<open>loading\<close>) come before
  every call of \<open>fetch\<close>: the updates queued before a request commit to a state with
  \<open>error\<close> cleared, \<open>results\<close> empty and \<open>loading\<close> true.
\<close>

lemma clearing_precedes_fetch:
  assumes "findRecipes N net s = es1 @ Fetch url # es2"
  shows "error (after s es1) = None \<and> recipes (after s es1) = [] \<and> loading (after s es1)"
proof (cases "trim (ingredients s) = []")
  case True
  then have e: "findRecipes N net s = [SetError None, SetError (Some emptyInputMessage)]"
    by (simp add: findRecipes_def)
  have "Fetch url \<in> set (findRecipes N net s)"
    unfolding assms by simp
  then show ?thesis
    unfolding e by simp
next
  case False
  from findRecipes_shape [OF False, of N net] obtain urls rest where
    f: "findRecipes N net s = [SetError None, SetLoading True, SetRecipes []] @ map Fetch urls @ rest"
    and r: "\<forall>u. Fetch u \<notin> set rest"
    by auto
  from f assms have d:
    "[SetError None, SetLoading True, SetRecipes []] @ map Fetch urls @ rest = es1 @ Fetch url # es2"
    by simp
  have p: "\<forall>u. Fetch u \<notin> set [SetError None, SetLoading True, SetRecipes []]"
    by simp
  from fetch_position [OF d p r]
  obtain k where "es1 = [SetError None, SetLoading True, SetRecipes []] @ map Fetch (take k urls)"
    by blast
  then have "after s es1 = s\<lparr>error := None, loading := True, recipes := []\<rparr>"
    by (simp add: after_Cons after_fetches)
  then show ?thesis by simp
qed

section \<open>Example runs\<close>

lemma twoMeals_events:
  assumes "ingredients s = js ''egg''"
  shows "findRecipes exampleNumops twoMeals s =
           [SetError None, SetLoading True, SetRecipes [], Fetch (filterUrl (js ''egg'')),
            Fetch (lookupUrlOf ''1''), Fetch (lookupUrlOf ''2''), SetRecipes twoRecipes,
            SetLoading False]"
  using assms
  by (simp add: findRecipes_def twoMeals_def exampleNumops_def
    js_def trim_def isWhiteSpace_def tryBody_def uriUnreserved_def filterUrl_def emit_def searchStage_def
    limitedOf_def detailStage_def candidate_def lookupUrl_def andThen_def promiseAll_def detail_def
    reduce_def reduceMeal_def summarise_def split_def endsWith_def catchFinally_def
    twoRecipes_def lookupUrlOf_def)

section \<open>Error and results\<close>

lemma statesOf_fetches_all: "list_all P (statesOf s (map Fetch urls)) \<longleftrightarrow> urls = [] \<or> P s"
  by (induction urls) auto

lemma twoMeals_invoke:
  "invoke exampleNumops twoMeals (idle ''egg'') = (idle ''egg'')\<lparr>recipes := twoRecipes\<rparr>"
proof -
  have "ingredients (idle ''egg'') = js ''egg''"
    by (simp add: idle_def)
  then show ?thesis
    by (simp add: invoke_def twoMeals_events after_Cons after_Nil) (simp add: idle_def)
qed

theorem error_with_results_counterexample:
  "error (invoke exampleNumops twoMeals
            (setIngredients [] (invoke exampleNumops twoMeals (idle ''egg'')))) =
     Some (js ''Please enter at least one ingredient'') \<and>
   recipes (invoke exampleNumops twoMeals
              (setIngredients [] (invoke exampleNumops twoMeals (idle ''egg'')))) = twoRecipes \<and>
   twoRecipes \<noteq> []"
proof -
  let ?s = "setIngredients [] (invoke exampleNumops twoMeals (idle ''egg''))"
  have "list_all isWhiteSpace (ingredients ?s)"
    by (simp add: setIngredients_def)
  then have "findRecipes exampleNumops twoMeals ?s =
      [SetError None, SetError (Some emptyInputMessage)]"
    by (rule findRecipes_rejected)
  then have "invoke exampleNumops twoMeals ?s = ?s\<lparr>error := Some emptyInputMessage\<rparr>"
    by (simp add: invoke_def after_Cons after_Nil)
  then show ?thesis
    by (simp add: twoMeals_invoke setIngredients_def emptyInputMessage_def twoRecipes_def)
qed

text \<open>
  C5, amended. In every state that a call passes through, from its first setter call to
  its end, \<open>error\<close> being set and \<open>results\<close> being non-empty exclude each other, provided
  that the call passes input validation or that \<open>results\<close> was empty when the call began.
  (The empty-input rejection writes \<open>error\<close> only and leaves \<open>results\<close> as it was.)
\<close>

theorem error_excludes_results:
  assumes "trim (ingredients s) \<noteq> [] \<or> recipes s = []"
  shows "list_all (\<lambda>s'. error s' = None \<or> recipes s' = []) (statesOf s (findRecipes N net s)) \<and>
         (error (invoke N net s) = None \<or> recipes (invoke N net s) = [])"
proof (cases "trim (ingredients s) = []")
  case True
  then have "findRecipes N net s = [SetError None, SetError (Some emptyInputMessage)]"
    by (simp add: findRecipes_def)
  moreover from True assms have "recipes s = []"
    by simp
  ultimately show ?thesis
    by (simp add: invoke_def after_Cons after_Nil)
next
  case False
  from findRecipes_shape [OF False, of N net] obtain urls where
    "findRecipes N net s =
       [SetError None, SetLoading True, SetRecipes []] @ map Fetch urls @
       [ConsoleError, SetError (Some fetchErrorMessage), SetLoading False] \<or>
     findRecipes N net s =
       [SetError None, SetLoading True, SetRecipes []] @ map Fetch urls @
       [SetRecipes [], SetError (Some noRecipesMessage), SetLoading False, SetLoading False] \<or>
     (\<exists>mapped. findRecipes N net s =
       [SetError None, SetLoading True, SetRecipes []] @ map Fetch urls @
       [SetRecipes mapped, SetLoading False])"
    by blast
  then show ?thesis
    by (elim disjE exE)
      (simp_all add: invoke_def statesOf_append after_append after_fetches after_Cons after_Nil
        statesOf_fetches_all)
qed

theorem error_excludes_results_witness:
  "trim (ingredients (stale ''egg'')) \<noteq> [] \<and>
   error (stale ''egg'') = Some (js ''Please enter at least one ingredient'') \<and>
   recipes (stale ''egg'') = [exampleRecipe] \<and>
   list_all (\<lambda>s'. error s' = None \<or> recipes s' = [])
     (statesOf (stale ''egg'') (findRecipes exampleNumops noMeals (stale ''egg''))) \<and>
   (error (invoke exampleNumops noMeals (stale ''egg'')) = None \<or>
    recipes (invoke exampleNumops noMeals (stale ''egg'')) = [])"
proof -
  have h: "trim (ingredients (stale ''egg'')) \<noteq> []"
    by (simp add: stale_def js_def trim_def isWhiteSpace_def)
  then have h': "trim (ingredients (stale ''egg'')) \<noteq> [] \<or> recipes (stale ''egg'') = []"
    by (rule disjI1)
  have e: "error (stale ''egg'') = Some (js ''Please enter at least one ingredient'')"
    and r: "recipes (stale ''egg'') = [exampleRecipe]"
    by (simp_all add: stale_def)
  show ?thesis
    using h e r error_excludes_results [OF h', of exampleNumops noMeals] by simp
qed

section \<open>The reduction of a detail payload\<close>

lemma summarise_defined_iff:
  "(\<exists>t. summarise N v = Inr t) \<longleftrightarrow> \<not> truthy N v \<or> (\<exists>t. v = Str t)"
  by (cases v) (auto simp: summarise_def Let_def)

lemma reduceMeal_defined_iff:
  "(\<exists>r. reduceMeal N meal = Inr r) \<longleftrightarrow>
     (\<exists>v. getProp meal (js ''strInstructions'') = Inr v \<and> (\<not> truthy N v \<or> (\<exists>t. v = Str t)))"
proof
  assume "\<exists>r. reduceMeal N meal = Inr r"
  then obtain r where r: "reduceMeal N meal = Inr r" ..
  then obtain v where v: "getProp meal (js ''strInstructions'') = Inr v"
    by (cases "getProp meal (js ''strInstructions'')") (simp_all add: reduceMeal_def andThen_def)
  with r obtain t where "summarise N v = Inr t"
    by (cases "summarise N v") (simp_all add: reduceMeal_def andThen_def)
  then have "\<not> truthy N v \<or> (\<exists>t. v = Str t)"
    using summarise_defined_iff [of N v] by blast
  with v show "\<exists>v. getProp meal (js ''strInstructions'') = Inr v \<and>
      (\<not> truthy N v \<or> (\<exists>t. v = Str t))"
    by blast
next
  assume "\<exists>v. getProp meal (js ''strInstructions'') = Inr v \<and> (\<not> truthy N v \<or> (\<exists>t. v = Str t))"
  then obtain v where v: "getProp meal (js ''strInstructions'') = Inr v"
    and "\<not> truthy N v \<or> (\<exists>t. v = Str t)"
    by blast
  then obtain t where "summarise N v = Inr t"
    using summarise_defined_iff [of N v] by blast
  with v show "\<exists>r. reduceMeal N meal = Inr r"
    using reduceMeal_summary by blast
qed

lemma reduce_defined_iff:
  "(\<exists>r. reduce N d = Inr r) \<longleftrightarrow>
     (\<exists>meals meal v.
        getProp d (js ''meals'') = Inr meals \<and> getIndex0 meals = Inr meal \<and>
        getProp meal (js ''strInstructions'') = Inr v \<and> (\<not> truthy N v \<or> (\<exists>t. v = Str t)))"
proof -
  have "(\<exists>r. reduce N d = Inr r) \<longleftrightarrow>
      (\<exists>meals meal. getProp d (js ''meals'') = Inr meals \<and> getIndex0 meals = Inr meal \<and>
         (\<exists>r. reduceMeal N meal = Inr r))"
    by (cases "getProp d (js ''meals'')"; cases "getIndex0 (projr (getProp d (js ''meals'')))")
      (simp_all add: reduce_def andThen_def)
  then show ?thesis
    by (simp add: reduceMeal_defined_iff)
qed

lemma reduce_object:
  assumes "getProp d (js ''meals'') = Inr meals" and "getIndex0 meals = Inr (Obj kvs)"
    and "v = ownProperty kvs (js ''strInstructions'')"
    and "v = Str t \<or> (\<not> truthy N v \<and> t = [])"
  shows "reduce N d =
           Inr \<lparr>id_recipe = ownProperty kvs (js ''idMeal''),
                name = ownProperty kvs (js ''strMeal''),
                thumbnail = ownProperty kvs (js ''strMealThumb''),
                summary = specSummary (Some t),
                strCategory = ownProperty kvs (js ''strCategory''),
                strArea = ownProperty kvs (js ''strArea''),
                strTags = ownProperty kvs (js ''strTags'')\<rparr>"
proof -
  have "summarise N (ownProperty kvs (js ''strInstructions'')) = Inr (specSummary (Some t))"
    using assms(3,4) summarise_text [of v t N] by simp
  then show ?thesis
    using assms(1,2) by (simp add: reduce_def reduceMeal_def andThen_def)
qed

lemma mapE_Inr_iff: "mapE f xs = Inr ys \<longleftrightarrow> list_all2 (\<lambda>x y. f x = Inr y) xs ys"
proof (induction xs arbitrary: ys)
  case Nil
  show ?case by (cases ys) simp_all
next
  case (Cons x xs)
  show ?case
  proof (cases ys)
    case Nil
    then show ?thesis by (simp split: sum.splits)
  next
    case ys: (Cons y ys')
    show ?thesis
    proof (cases "f x")
      case (Inl e)
      then show ?thesis by (simp add: ys)
    next
      case fx: (Inr z)
      show ?thesis
      proof (cases "mapE f xs")
        case (Inl e)
        with Cons.IH [of ys'] have "\<not> list_all2 (\<lambda>x y. f x = Inr y) xs ys'" by simp
        with Inl fx show ?thesis by (simp add: ys)
      next
        case (Inr zs)
        with Cons.IH [of ys'] have "list_all2 (\<lambda>x y. f x = Inr y) xs ys' \<longleftrightarrow> zs = ys'" by simp
        with Inr fx show ?thesis by (simp add: ys)
      qed
    qed
  qed
qed

lemma promiseAll_Inr:
  assumes "promiseAll (map f [0..<n]) = Inr ys"
  shows "length ys = n \<and> (\<forall>i<n. f i = Inr (ys ! i))"
proof -
  from assms have l: "list_all2 (\<lambda>p y. p = Inr y) (map f [0..<n]) ys"
    by (simp add: promiseAll_def mapE_Inr_iff)
  then have n: "length ys = n"
    by (auto dest: list_all2_lengthD)
  have "\<forall>i<n. f i = Inr (ys ! i)"
  proof (intro allI impI)
    fix i assume "i < n"
    with l have "map f [0..<n] ! i = Inr (ys ! i)"
      by (auto dest: list_all2_nthD)
    with \<open>i < n\<close> show "f i = Inr (ys ! i)" by simp
  qed
  with n show ?thesis by simp
qed

lemma detailStage_unreducible:
  assumes "i < length limited" and "lookupResponse net i = Inr d" and "reduce N d = Inl e"
  shows "\<exists>urls e'. detailStage N net limited = (map Fetch urls, Throw e')"
proof -
  obtain urls r where d: "detailPromises N limited = (urls, r)"
    by (cases "detailPromises N limited")
  show ?thesis
  proof (cases r)
    case (Some e')
    with d have "detailStage N net limited = (map Fetch urls, Throw e')"
      by (simp add: detailStage_def)
    then show ?thesis by blast
  next
    case None
    show ?thesis
    proof (cases "promiseAll (map (lookupResponse net) [0..<length limited])")
      case (Inl e')
      with d None have "detailStage N net limited = (map Fetch urls, Throw e')"
        by (simp add: detailStage_def emit_def)
      then show ?thesis by blast
    next
      case (Inr details)
      from promiseAll_Inr [OF Inr] have len: "length details = length limited"
        and nth: "\<forall>i<length limited. lookupResponse net i = Inr (details ! i)"
        by simp_all
      from nth assms(1) have "lookupResponse net i = Inr (details ! i)"
        by simp
      with assms(2) have "details ! i = d"
        by simp
      moreover have "details ! i \<in> set details"
        using len assms(1) by (intro nth_mem) simp
      ultimately have "d \<in> set details"
        by simp
      from mapE_Inl [of d details "reduce N" e, OF this assms(3)]
      obtain e' where "mapE (reduce N) details = Inl e'" ..
      with d None Inr have "detailStage N net limited = (map Fetch urls, Throw e')"
        by (simp add: detailStage_def emit_def)
      then show ?thesis by blast
    qed
  qed
qed

lemma thrown_details_fail:
  assumes "trim (ingredients s) \<noteq> []"
    and "filterResponse net = Inr data"
    and "getProp data (js ''meals'') = Inr (Arr ms)"
    and "detailStage N net (take 10 ms) = (map Fetch urls, Throw e)"
  shows "\<exists>urls'. findRecipes N net s =
           [SetError None, SetLoading True, SetRecipes []] @ map Fetch urls' @
           [ConsoleError, SetError (Some fetchErrorMessage), SetLoading False]"
proof -
  have "searchStage N net data = (map Fetch urls, Throw e)"
    using assms(3,4) by (simp add: searchStage_def limitedOf_def)
  with tryBody_throws_or [OF assms(2), of N "trim (ingredients s)"]
  obtain urls' e' where "tryBody N net (trim (ingredients s)) = (map Fetch urls', Throw e')"
    by (auto simp: emit_def) (metis list.simps(9))
  then have "findRecipes N net s =
      [SetError None, SetLoading True, SetRecipes []] @ map Fetch urls' @
      [ConsoleError, SetError (Some fetchErrorMessage), SetLoading False]"
    by (simp add: findRecipes_searching [OF assms(1)] catchFinally_def)
  then show ?thesis ..
qed

theorem reduce_throws_counterexample:
  "reduce exampleNumops (Obj [(js ''meals'', Null)]) = Inl TypeError \<and>
   lookupResponse unknownSecond 1 = Inr (Obj [(js ''meals'', Null)]) \<and>
   error (invoke exampleNumops unknownSecond (idle ''egg'')) =
     Some (js ''An error occurred while fetching recipes. Check your network.'') \<and>
   recipes (invoke exampleNumops unknownSecond (idle ''egg'')) = []"
  by (simp add: invoke_def findRecipes_def idle_def unknownSecond_def twoMeals_def exampleNumops_def
    js_def trim_def isWhiteSpace_def tryBody_def uriUnreserved_def filterUrl_def emit_def searchStage_def
    limitedOf_def detailStage_def candidate_def lookupUrl_def andThen_def promiseAll_def detail_def
    reduce_def reduceMeal_def summarise_def split_def endsWith_def catchFinally_def after_def
    fetchErrorMessage_def)

text \<open>
  C6, amended. The reduction succeeds exactly on the detail payloads \<open>d\<close> for which
  \<open>d.meals[0]\<close> can be read and is neither \<open>null\<close> nor \<open>undefined\<close>, and whose
  \<open>strInstructions\<close> is falsy or a string. For such a payload whose record is an object,
  the result passes \<open>idMeal\<close>, \<open>strMeal\<close>, \<open>strMealThumb\<close>, \<open>strCategory\<close>, \<open>strArea\<close>
  and \<open>strTags\<close> through, a missing one as \<open>undefined\<close>, and has the summary of the
  instructions, the empty one when they are falsy. On any other payload the reduction
  throws, and a search that received it for one of its candidates ends with the
  fetch-error message and empty \<open>results\<close>.
\<close>

theorem reduce_of_valid_detail:
  "((\<exists>r. reduce N d = Inr r) \<longleftrightarrow>
      (\<exists>meals meal v.
         getProp d (js ''meals'') = Inr meals \<and> getIndex0 meals = Inr meal \<and>
         getProp meal (js ''strInstructions'') = Inr v \<and> (\<not> truthy N v \<or> (\<exists>t. v = Str t)))) \<and>
   (getProp d (js ''meals'') = Inr meals \<and> getIndex0 meals = Inr (Obj kvs) \<and>
    (ownProperty kvs (js ''strInstructions'') = Str t \<or>
     \<not> truthy N (ownProperty kvs (js ''strInstructions'')) \<and> t = []) \<longrightarrow>
    reduce N d =
      Inr \<lparr>id_recipe = ownProperty kvs (js ''idMeal''),
           name = ownProperty kvs (js ''strMeal''),
           thumbnail = ownProperty kvs (js ''strMealThumb''),
           summary = specSummary (Some t),
           strCategory = ownProperty kvs (js ''strCategory''),
           strArea = ownProperty kvs (js ''strArea''),
           strTags = ownProperty kvs (js ''strTags'')\<rparr>) \<and>
   (trim (ingredients s) \<noteq> [] \<and> filterResponse net = Inr data \<and>
    getProp data (js ''meals'') = Inr (Arr ms) \<and> i < min (length ms) 10 \<and>
    lookupResponse net i = Inr d \<and> reduce N d = Inl e \<longrightarrow>
    error (invoke N net s) =
      Some (js ''An error occurred while fetching recipes. Check your network.'') \<and>
    recipes (invoke N net s) = [])"
proof -
  have p1: "(\<exists>r. reduce N d = Inr r) \<longleftrightarrow>
      (\<exists>meals meal v.
         getProp d (js ''meals'') = Inr meals \<and> getIndex0 meals = Inr meal \<and>
         getProp meal (js ''strInstructions'') = Inr v \<and> (\<not> truthy N v \<or> (\<exists>t. v = Str t)))"
    by (rule reduce_defined_iff)
  have p2: "getProp d (js ''meals'') = Inr meals \<and> getIndex0 meals = Inr (Obj kvs) \<and>
    (ownProperty kvs (js ''strInstructions'') = Str t \<or>
     \<not> truthy N (ownProperty kvs (js ''strInstructions'')) \<and> t = []) \<longrightarrow>
    reduce N d =
      Inr \<lparr>id_recipe = ownProperty kvs (js ''idMeal''),
           name = ownProperty kvs (js ''strMeal''),
           thumbnail = ownProperty kvs (js ''strMealThumb''),
           summary = specSummary (Some t),
           strCategory = ownProperty kvs (js ''strCategory''),
           strArea = ownProperty kvs (js ''strArea''),
           strTags = ownProperty kvs (js ''strTags'')\<rparr>"
    using reduce_object [of d meals kvs "ownProperty kvs (js ''strInstructions'')" t N] by blast
  have p3: "trim (ingredients s) \<noteq> [] \<and> filterResponse net = Inr data \<and>
    getProp data (js ''meals'') = Inr (Arr ms) \<and> i < min (length ms) 10 \<and>
    lookupResponse net i = Inr d \<and> reduce N d = Inl e \<longrightarrow>
    error (invoke N net s) =
      Some (js ''An error occurred while fetching recipes. Check your network.'') \<and>
    recipes (invoke N net s) = []"
  proof
    assume a: "trim (ingredients s) \<noteq> [] \<and> filterResponse net = Inr data \<and>
      getProp data (js ''meals'') = Inr (Arr ms) \<and> i < min (length ms) 10 \<and>
      lookupResponse net i = Inr d \<and> reduce N d = Inl e"
    then have "i < length (take 10 ms)"
      by simp
    with a obtain urls e' where "detailStage N net (take 10 ms) = (map Fetch urls, Throw e')"
      using detailStage_unreducible [of i "take 10 ms" net d N e] by blast
    with a obtain urls' where f: "findRecipes N net s =
        [SetError None, SetLoading True, SetRecipes []] @ map Fetch urls' @
        [ConsoleError, SetError (Some fetchErrorMessage), SetLoading False]"
      using thrown_details_fail [of s net data ms N urls e'] by blast
    show "error (invoke N net s) =
        Some (js ''An error occurred while fetching recipes. Check your network.'') \<and>
      recipes (invoke N net s) = []"
      unfolding invoke_def f
      by (simp add: after_append after_fetches after_Cons after_Nil fetchErrorMessage_def)
  qed
  show ?thesis
    by (rule conjI [OF p1 conjI [OF p2 p3]])
qed

theorem reduce_of_valid_detail_witness:
  "(\<exists>r. reduce exampleNumops (Obj [(js ''meals'', Arr [exampleMeal])]) = Inr r) \<and>
   reduce exampleNumops (Obj [(js ''meals'', Arr [Obj [(js ''idMeal'', Str (js ''7''))]])]) =
     Inr \<lparr>id_recipe = Str (js ''7''), name = Undefined, thumbnail = Undefined, summary = [],
          strCategory = Undefined, strArea = Undefined, strTags = Undefined\<rparr> \<and>
   lookupResponse unknownSecond 1 = Inr (Obj [(js ''meals'', Null)]) \<and>
   reduce exampleNumops (Obj [(js ''meals'', Null)]) = Inl TypeError \<and>
   error (invoke exampleNumops unknownSecond (idle ''egg'')) =
     Some (js ''An error occurred while fetching recipes. Check your network.'') \<and>
   recipes (invoke exampleNumops unknownSecond (idle ''egg'')) = []"
proof -
  let ?d1 = "Obj [(js ''meals'', Arr [exampleMeal])] :: unit jsval"
  let ?kvs = "[(js ''idMeal'', Str (js ''7''))] :: (jsstring \<times> unit jsval) list"
  let ?d2 = "Obj [(js ''meals'', Arr [Obj ?kvs])] :: unit jsval"
  let ?d3 = "Obj [(js ''meals'', Null)] :: unit jsval"
  let ?data = "Obj [(js ''meals'', Arr [candidate ''1'', candidate ''2''])]"
  have a1: "\<exists>meals meal v.
      getProp ?d1 (js ''meals'') = Inr meals \<and> getIndex0 meals = Inr meal \<and>
      getProp meal (js ''strInstructions'') = Inr v \<and>
      (\<not> truthy exampleNumops v \<or> (\<exists>t. v = Str t))"
    by (simp add: exampleMeal_def js_def)
  have c1: "\<exists>r. reduce exampleNumops ?d1 = Inr r"
    using reduce_of_valid_detail [where N = exampleNumops and d = ?d1, THEN conjunct1] a1
    by (rule iffD2)
  have a2: "getProp ?d2 (js ''meals'') = Inr (Arr [Obj ?kvs]) \<and>
      getIndex0 (Arr [Obj ?kvs]) = Inr (Obj ?kvs) \<and>
      (ownProperty ?kvs (js ''strInstructions'') = Str [] \<or>
       \<not> truthy exampleNumops (ownProperty ?kvs (js ''strInstructions'')) \<and> [] = ([] :: jsstring))"
    by (simp add: js_def)
  have e2: "specSummary (Some []) = []"
    using specSummary_None specSummary_absent by simp
  have "reduce exampleNumops ?d2 =
      Inr \<lparr>id_recipe = ownProperty ?kvs (js ''idMeal''),
           name = ownProperty ?kvs (js ''strMeal''),
           thumbnail = ownProperty ?kvs (js ''strMealThumb''),
           summary = specSummary (Some []),
           strCategory = ownProperty ?kvs (js ''strCategory''),
           strArea = ownProperty ?kvs (js ''strArea''),
           strTags = ownProperty ?kvs (js ''strTags'')\<rparr>"
    using reduce_of_valid_detail [where N = exampleNumops and d = ?d2 and meals = "Arr [Obj ?kvs]"
        and kvs = ?kvs and t = "[]", THEN conjunct2, THEN conjunct1] a2
    by (rule mp)
  then have c2: "reduce exampleNumops ?d2 =
      Inr \<lparr>id_recipe = Str (js ''7''), name = Undefined, thumbnail = Undefined, summary = [],
           strCategory = Undefined, strArea = Undefined, strTags = Undefined\<rparr>"
    by (simp add: e2) (simp add: js_def)
  have l3: "lookupResponse unknownSecond 1 = Inr ?d3"
    by (simp add: unknownSecond_def)
  have r3: "reduce exampleNumops ?d3 = Inl TypeError"
    by (simp add: reduce_def andThen_def)
  have a3: "trim (ingredients (idle ''egg'')) \<noteq> [] \<and> filterResponse unknownSecond = Inr ?data \<and>
      getProp ?data (js ''meals'') = Inr (Arr [candidate ''1'', candidate ''2'']) \<and>
      1 < min (length [candidate ''1'', candidate ''2'']) 10 \<and>
      lookupResponse unknownSecond 1 = Inr ?d3 \<and> reduce exampleNumops ?d3 = Inl TypeError"
    using l3 r3
    by (simp add: unknownSecond_def twoMeals_def idle_def) (simp add: js_def trim_def isWhiteSpace_def)
  have c3: "error (invoke exampleNumops unknownSecond (idle ''egg'')) =
      Some (js ''An error occurred while fetching recipes. Check your network.'') \<and>
    recipes (invoke exampleNumops unknownSecond (idle ''egg'')) = []"
    using reduce_of_valid_detail [where N = exampleNumops and d = ?d3 and s = "idle ''egg''"
        and net = unknownSecond and data = ?data and ms = "[candidate ''1'', candidate ''2'']"
        and i = 1 and e = TypeError, THEN conjunct2, THEN conjunct2] a3
    by (rule mp)
  show ?thesis
    using c1 c2 l3 r3 c3 by (intro conjI) simp_all
qed

section \<open>The lookup requests\<close>

lemma requests_no_fetch: "\<forall>u. Fetch u \<notin> set es \<Longrightarrow> requests es = []"
  by (induction es rule: requests.induct) auto

lemma detailPromises_prefix:
  "detailPromises N ms = (urls, r) \<Longrightarrow>
     length urls \<le> length ms \<and> (\<forall>i<length urls. lookupUrl N (ms ! i) = Inr (urls ! i)) \<and>
     (r = None \<longrightarrow> length urls = length ms)"
proof (induction ms arbitrary: urls r)
  case Nil
  then show ?case by simp
next
  case (Cons m ms)
  show ?case
  proof (cases "lookupUrl N m")
    case (Inl e)
    with Cons.prems show ?thesis by auto
  next
    case (Inr url)
    obtain urls' r' where d: "detailPromises N ms = (urls', r')"
      by (cases "detailPromises N ms")
    with Cons.prems Inr have u: "urls = url # urls'" and r: "r = r'"
      by simp_all
    from Cons.IH [OF d] have IH: "length urls' \<le> length ms"
      "\<forall>i<length urls'. lookupUrl N (ms ! i) = Inr (urls' ! i)"
      "r' = None \<longrightarrow> length urls' = length ms"
      by simp_all
    have "\<forall>i<length urls. lookupUrl N ((m # ms) ! i) = Inr (urls ! i)"
    proof (intro allI impI)
      fix i assume "i < length urls"
      then show "lookupUrl N ((m # ms) ! i) = Inr (urls ! i)"
        using IH(2) Inr u by (cases i) simp_all
    qed
    with IH(1,3) u r show ?thesis by simp
  qed
qed

lemma detailPromises_complete:
  "list_all (\<lambda>m. \<not> isl (lookupUrl N m)) ms \<Longrightarrow> snd (detailPromises N ms) = None"
proof (induction ms)
  case Nil
  then show ?case by simp
next
  case (Cons m ms)
  then obtain url where "lookupUrl N m = Inr url"
    by (cases "lookupUrl N m") simp_all
  with Cons show ?case
    by (cases "detailPromises N ms") simp
qed

lemma requests_detailStage:
  "requests (catchFinally (detailStage N net limited)) = fst (detailPromises N limited)"
proof -
  obtain urls r where d: "detailPromises N limited = (urls, r)"
    by (cases "detailPromises N limited")
  from detailStage_shape [of N net limited] obtain urls' where s:
    "(\<exists>e. detailStage N net limited = (map Fetch urls', Throw e)) \<or>
     (\<exists>mapped. detailStage N net limited = (map Fetch urls' @ [SetRecipes mapped], Normal))"
    by blast
  have "fst (detailStage N net limited) = map Fetch urls @ drop (length urls) (fst (detailStage N net limited))
      \<and> (\<forall>u. Fetch u \<notin> set (drop (length urls) (fst (detailStage N net limited))))"
    using d by (auto simp: detailStage_def emit_def split: option.splits sum.splits)
  then obtain rest where f: "fst (detailStage N net limited) = map Fetch urls @ rest"
    and n: "\<forall>u. Fetch u \<notin> set rest"
    by blast
  have "requests (catchFinally (detailStage N net limited)) = urls"
    using s by (auto simp: catchFinally_def f requests_append requests_fetches requests_no_fetch [OF n])
  with d show ?thesis by simp
qed

lemma lookupUrl_candidate:
  assumes "ownProperty kvs (js ''idMeal'') = Str i"
  shows "lookupUrl N (Obj kvs) = Inr (js ''https://www.themealdb.com/api/json/v1/1/lookup.php?i='' @ i)"
  using assms by (simp add: lookupUrl_def andThen_def)

text \<open>
  C2. When the filter request delivers a body whose \<open>meals\<close> is an array of length \<open>N\<close>,
  the detail stage runs on the first \<open>min N 10\<close> entries of \<open>meals\<close>, in their order, and
  on nothing else. The lookup requests it starts are, in this order, those of these
  entries, one for each as long as the URL of the entry can be built; when it can be built
  for all of them (as for every object whose \<open>idMeal\<close> is a string), exactly \<open>min N 10\<close>
  lookup requests are started.
\<close>

theorem lookups_are_first_ten:
  assumes "trim (ingredients s) \<noteq> []"
    and "encodeURIComponent (trim (ingredients s)) = Inr encoded"
    and "filterResponse net = Inr data"
    and "getProp data (js ''meals'') = Inr (Arr ms)"
  shows "findRecipes N net s =
           [SetError None, SetLoading True, SetRecipes [], Fetch (filterUrl encoded)] @
           catchFinally (detailStage N net (take (min (length ms) 10) ms)) \<and>
         length (take (min (length ms) 10) ms) = min (length ms) 10 \<and>
         (\<exists>urls. requests (findRecipes N net s) = filterUrl encoded # urls \<and>
            length urls \<le> min (length ms) 10 \<and>
            (\<forall>i<length urls. lookupUrl N (ms ! i) = Inr (urls ! i)) \<and>
            (list_all (\<lambda>m. \<not> isl (lookupUrl N m)) (take 10 ms) \<longrightarrow>
             length urls = min (length ms) 10))"
proof -
  have t: "take (min (length ms) 10) ms = take 10 ms"
    by (simp add: min_def)
  have "searchStage N net data = detailStage N net (take 10 ms)"
    using assms(4) by (simp add: searchStage_def limitedOf_def)
  then have f: "findRecipes N net s =
      [SetError None, SetLoading True, SetRecipes [], Fetch (filterUrl encoded)] @
      catchFinally (detailStage N net (take 10 ms))"
    using assms(2,3)
    by (simp add: findRecipes_searching [OF assms(1)] tryBody_def catchFinally_emit)
  obtain urls r where d: "detailPromises N (take 10 ms) = (urls, r)"
    by (cases "detailPromises N (take 10 ms)")
  note pre = detailPromises_prefix [OF d]
  from pre have p1: "length urls \<le> min (length ms) 10"
    by simp
  from pre have p2: "\<forall>i<length urls. lookupUrl N (take 10 ms ! i) = Inr (urls ! i)"
    by (elim conjE)
  from pre have p3: "r = None \<longrightarrow> length urls = min (length ms) 10"
    by simp
  note p = p1 p2 p3
  have q: "requests (findRecipes N net s) = filterUrl encoded # urls"
    unfolding f by (simp add: requests_append requests_detailStage d)
  have n: "\<forall>i<length urls. lookupUrl N (ms ! i) = Inr (urls ! i)"
  proof (intro allI impI)
    fix i assume i: "i < length urls"
    with p(1) have "take 10 ms ! i = ms ! i"
      by simp
    with p(2) i show "lookupUrl N (ms ! i) = Inr (urls ! i)"
      by auto
  qed
  have c: "list_all (\<lambda>m. \<not> isl (lookupUrl N m)) (take 10 ms) \<longrightarrow> length urls = min (length ms) 10"
    using detailPromises_complete [of N "take 10 ms"] d p(3) by simp
  show ?thesis
    unfolding t using f q p(1) n c by simp
qed

theorem lookups_are_first_ten_witness:
  "trim (ingredients (idle ''chicken'')) \<noteq> [] \<and>
   encodeURIComponent (trim (ingredients (idle ''chicken''))) = Inr (js ''chicken'') \<and>
   filterResponse fifteenMeals = Inr (Obj [(js ''meals'', Arr fifteenCandidates)]) \<and>
   getProp (Obj [(js ''meals'', Arr fifteenCandidates)]) (js ''meals'') = Inr (Arr fifteenCandidates) \<and>
   length fifteenCandidates = 15 \<and>
   list_all (\<lambda>m. \<not> isl (lookupUrl exampleNumops m)) (take 10 fifteenCandidates) \<and>
   (\<exists>urls. requests (findRecipes exampleNumops fifteenMeals (idle ''chicken'')) =
             filterUrl (js ''chicken'') # urls \<and>
           length urls = 10 \<and>
           (\<forall>i<10. lookupUrl exampleNumops (fifteenCandidates ! i) = Inr (urls ! i)))"
proof -
  have t: "trim (ingredients (idle ''chicken'')) = js ''chicken''"
    by (simp add: idle_def js_def trim_def isWhiteSpace_def)
  have h1: "trim (ingredients (idle ''chicken'')) \<noteq> []"
    by (simp add: t) (simp add: js_def)
  have h2: "encodeURIComponent (trim (ingredients (idle ''chicken''))) = Inr (js ''chicken'')"
    by (simp add: t) (simp add: js_def uriUnreserved_def)
  have h3: "filterResponse fifteenMeals = Inr (Obj [(js ''meals'', Arr fifteenCandidates)])"
    by (simp add: fifteenMeals_def)
  have h4: "getProp (Obj [(js ''meals'', Arr fifteenCandidates)]) (js ''meals'') =
      Inr (Arr fifteenCandidates)"
    by simp
  have l: "length fifteenCandidates = 15"
    by (simp add: fifteenCandidates_def)
  have c: "list_all (\<lambda>m. \<not> isl (lookupUrl exampleNumops m)) (take 10 fifteenCandidates)"
    by (simp add: fifteenCandidates_def candidate_def lookupUrl_candidate)
  from lookups_are_first_ten [OF h1 h2 h3 h4, of exampleNumops]
  obtain urls where u: "requests (findRecipes exampleNumops fifteenMeals (idle ''chicken'')) =
        filterUrl (js ''chicken'') # urls"
    "length urls \<le> min (length fifteenCandidates) 10"
    "\<forall>i<length urls. lookupUrl exampleNumops (fifteenCandidates ! i) = Inr (urls ! i)"
    "list_all (\<lambda>m. \<not> isl (lookupUrl exampleNumops m)) (take 10 fifteenCandidates) \<longrightarrow>
       length urls = min (length fifteenCandidates) 10"
    by blast
  from u(4) c l have n: "length urls = 10"
    by simp
  with u(3) have "\<forall>i<10. lookupUrl exampleNumops (fifteenCandidates ! i) = Inr (urls ! i)"
    by simp
  with u(1) n have "\<exists>urls. requests (findRecipes exampleNumops fifteenMeals (idle ''chicken'')) =
             filterUrl (js ''chicken'') # urls \<and>
           length urls = 10 \<and>
           (\<forall>i<10. lookupUrl exampleNumops (fifteenCandidates ! i) = Inr (urls ! i))"
    by blast
  with h1 h2 h3 h4 l c show ?thesis
    by (intro conjI)
qed

section \<open>The order of the results\<close>

lemma detailStage_Normal:
  assumes "snd (detailStage N net limited) = Normal"
  shows "\<exists>urls details mapped.
           detailPromises N limited = (urls, None) \<and>
           promiseAll (map (lookupResponse net) [0..<length limited]) = Inr details \<and>
           mapE (reduce N) details = Inr mapped \<and>
           fst (detailStage N net limited) = map Fetch urls @ [SetRecipes mapped]"
proof -
  obtain urls r where d: "detailPromises N limited = (urls, r)"
    by (cases "detailPromises N limited")
  show ?thesis
  proof (cases r)
    case (Some e)
    with d assms show ?thesis by (simp add: detailStage_def)
  next
    case None
    show ?thesis
    proof (cases "promiseAll (map (lookupResponse net) [0..<length limited])")
      case (Inl e)
      with d None assms show ?thesis by (simp add: detailStage_def emit_def)
    next
      case (Inr details)
      show ?thesis
      proof (cases "mapE (reduce N) details")
        case (Inl e)
        with d None Inr assms show ?thesis by (simp add: detailStage_def emit_def)
      next
        case mapped: (Inr mapped)
        with d None Inr show ?thesis by (simp add: detailStage_def emit_def)
      qed
    qed
  qed
qed

lemma searchStage_Normal:
  assumes "snd (searchStage N net data) = Normal"
  shows "\<exists>ms. getProp data (js ''meals'') = Inr (Arr ms) \<and>
           searchStage N net data = detailStage N net (take 10 ms)"
proof (cases "getProp data (js ''meals'')")
  case (Inl e)
  with assms show ?thesis by (simp add: searchStage_def)
next
  case (Inr meals)
  show ?thesis
  proof (cases "truthy N meals")
    case False
    with Inr assms show ?thesis by (simp add: searchStage_def)
  next
    case True
    with Inr assms show ?thesis
      by (cases meals) (simp_all add: searchStage_def limitedOf_def)
  qed
qed

lemma tryBody_Normal:
  assumes "snd (tryBody N net q) = Normal"
  shows "\<exists>encoded data. encodeURIComponent q = Inr encoded \<and> filterResponse net = Inr data \<and>
           tryBody N net q = emit [Fetch (filterUrl encoded)] (searchStage N net data)"
proof (cases "encodeURIComponent q")
  case (Inl e)
  with assms show ?thesis by (simp add: tryBody_def)
next
  case (Inr encoded)
  with assms show ?thesis
    by (cases "filterResponse net") (simp_all add: tryBody_def emit_def)
qed

lemma error_None_Normal:
  assumes "error (invoke N net s) = None"
  shows "trim (ingredients s) \<noteq> [] \<and> snd (tryBody N net (trim (ingredients s))) = Normal"
proof (cases "trim (ingredients s) = []")
  case True
  then have "findRecipes N net s = [SetError None, SetError (Some emptyInputMessage)]"
    by (simp add: findRecipes_def)
  with assms show ?thesis
    by (simp add: invoke_def after_Cons after_Nil)
next
  case False
  from tryBody_shape [of N net "trim (ingredients s)"] obtain urls where
    "(\<exists>e. tryBody N net (trim (ingredients s)) = (map Fetch urls, Throw e)) \<or>
     tryBody N net (trim (ingredients s)) =
       (map Fetch urls @ [SetRecipes [], SetError (Some noRecipesMessage), SetLoading False],
        Return) \<or>
     (\<exists>mapped. tryBody N net (trim (ingredients s)) =
        (map Fetch urls @ [SetRecipes mapped], Normal))"
    by blast
  then show ?thesis
  proof (elim disjE exE)
    fix e assume "tryBody N net (trim (ingredients s)) = (map Fetch urls, Throw e)"
    with assms False show ?thesis
      by (simp add: invoke_def findRecipes_searching catchFinally_def after_Cons after_Nil
          after_append after_fetches)
  next
    assume "tryBody N net (trim (ingredients s)) =
       (map Fetch urls @ [SetRecipes [], SetError (Some noRecipesMessage), SetLoading False],
        Return)"
    with assms False show ?thesis
      by (simp add: invoke_def findRecipes_searching catchFinally_def after_Cons after_Nil
          after_append after_fetches)
  next
    fix mapped assume "tryBody N net (trim (ingredients s)) =
        (map Fetch urls @ [SetRecipes mapped], Normal)"
    with False show ?thesis by simp
  qed
qed

text \<open>
  C9. When a search succeeds (it ends with \<open>error\<close> cleared), the filter response held
  an array \<open>meals\<close>, one lookup request was started for each of its first \<open>min N 10\<close>
  entries, in their order, and \<open>results\<close> has that length. The entry of \<open>results\<close> at
  position \<open>i\<close> is the reduction of the body delivered for the request at position \<open>i\<close>,
  which is the request for the candidate at position \<open>i\<close>.
\<close>

theorem results_follow_candidates:
  assumes "error (invoke N net s) = None"
  shows "\<exists>data ms urls.
           filterResponse net = Inr data \<and> getProp data (js ''meals'') = Inr (Arr ms) \<and>
           tl (requests (findRecipes N net s)) = urls \<and>
           length urls = min (length ms) 10 \<and>
           length (recipes (invoke N net s)) = min (length ms) 10 \<and>
           (\<forall>i<min (length ms) 10.
              lookupUrl N (ms ! i) = Inr (urls ! i) \<and>
              (\<exists>d. lookupResponse net i = Inr d \<and>
                   reduce N d = Inr (recipes (invoke N net s) ! i)))"
proof -
  let ?q = "trim (ingredients s)"
  from error_None_Normal [OF assms] have q: "?q \<noteq> []" and n: "snd (tryBody N net ?q) = Normal"
    by simp_all
  from tryBody_Normal [OF n] obtain encoded data where
    e: "encodeURIComponent ?q = Inr encoded" and f: "filterResponse net = Inr data" and
    t: "tryBody N net ?q = emit [Fetch (filterUrl encoded)] (searchStage N net data)"
    by blast
  from n t have "snd (searchStage N net data) = Normal"
    by (simp add: emit_def)
  from searchStage_Normal [OF this] obtain ms where
    m: "getProp data (js ''meals'') = Inr (Arr ms)" and
    s: "searchStage N net data = detailStage N net (take 10 ms)"
    by blast
  from \<open>snd (searchStage N net data) = Normal\<close> s
  have "snd (detailStage N net (take 10 ms)) = Normal"
    by simp
  from detailStage_Normal [OF this] obtain urls details mapped where
    d: "detailPromises N (take 10 ms) = (urls, None)" and
    p: "promiseAll (map (lookupResponse net) [0..<length (take 10 ms)]) = Inr details" and
    r: "mapE (reduce N) details = Inr mapped" and
    ev: "fst (detailStage N net (take 10 ms)) = map Fetch urls @ [SetRecipes mapped]"
    by blast
  have fr: "findRecipes N net s =
      [SetError None, SetLoading True, SetRecipes [], Fetch (filterUrl encoded)] @
      map Fetch urls @ [SetRecipes mapped, SetLoading False]"
    using n by (simp add: findRecipes_searching [OF q] catchFinally_def t s emit_def ev)
  have rq: "tl (requests (findRecipes N net s)) = urls"
    unfolding fr by (simp add: requests_append requests_fetches)
  have rc: "recipes (invoke N net s) = mapped"
    unfolding invoke_def fr by (simp add: after_append after_fetches after_Cons after_Nil)
  note pre = detailPromises_prefix [OF d]
  from pre have lu: "length urls = min (length ms) 10"
    by simp
  from pre have nu: "\<forall>i<length urls. lookupUrl N (take 10 ms ! i) = Inr (urls ! i)"
    by (elim conjE)
  from promiseAll_Inr [OF p] have ld: "length details = min (length ms) 10"
    and nd: "\<forall>i<length (take 10 ms). lookupResponse net i = Inr (details ! i)"
    by simp_all
  from r have l2: "list_all2 (\<lambda>x y. reduce N x = Inr y) details mapped"
    by (simp add: mapE_Inr_iff)
  then have lm: "length mapped = min (length ms) 10"
    using ld by (auto dest: list_all2_lengthD)
  have each: "\<forall>i<min (length ms) 10.
      lookupUrl N (ms ! i) = Inr (urls ! i) \<and>
      (\<exists>d. lookupResponse net i = Inr d \<and> reduce N d = Inr (mapped ! i))"
  proof (intro allI impI)
    fix i assume i: "i < min (length ms) 10"
    then have "take 10 ms ! i = ms ! i"
      by simp
    with nu lu i have a: "lookupUrl N (ms ! i) = Inr (urls ! i)"
      by auto
    from nd i have b: "lookupResponse net i = Inr (details ! i)"
      by simp
    from l2 i ld have c: "reduce N (details ! i) = Inr (mapped ! i)"
      by (auto dest: list_all2_nthD)
    from a b c show "lookupUrl N (ms ! i) = Inr (urls ! i) \<and>
        (\<exists>d. lookupResponse net i = Inr d \<and> reduce N d = Inr (mapped ! i))"
      by blast
  qed
  show ?thesis
    using f m rq lu lm each unfolding rc by blast
qed

theorem results_follow_candidates_witness:
  "error (invoke exampleNumops twoMeals (idle ''egg'')) = None \<and>
   recipes (invoke exampleNumops twoMeals (idle ''egg'')) = twoRecipes \<and>
   requests (findRecipes exampleNumops twoMeals (idle ''egg'')) =
     [filterUrl (js ''egg''), lookupUrlOf ''1'', lookupUrlOf ''2''] \<and>
   lookupUrl exampleNumops (candidate ''2'') = Inr (lookupUrlOf ''2'') \<and>
   lookupResponse twoMeals 1 = Inr (detail ''2'' ''Mix well'') \<and>
   reduce exampleNumops (detail ''2'' ''Mix well'') = Inr (twoRecipes ! 1)"
proof -
  have h: "error (invoke exampleNumops twoMeals (idle ''egg'')) = None"
    by (simp add: twoMeals_invoke) (simp add: idle_def)
  have r: "recipes (invoke exampleNumops twoMeals (idle ''egg'')) = twoRecipes"
    by (simp add: twoMeals_invoke)
  have "ingredients (idle ''egg'') = js ''egg''"
    by (simp add: idle_def)
  then have q: "requests (findRecipes exampleNumops twoMeals (idle ''egg'')) =
      [filterUrl (js ''egg''), lookupUrlOf ''1'', lookupUrlOf ''2'']"
    by (simp add: twoMeals_events)
  have f: "filterResponse twoMeals = Inr (Obj [(js ''meals'', Arr [candidate ''1'', candidate ''2''])])"
    and l: "lookupResponse twoMeals 1 = Inr (detail ''2'' ''Mix well'')"
    by (simp_all add: twoMeals_def)
  from results_follow_candidates [OF h] obtain data ms urls where
    d: "filterResponse twoMeals = Inr data" and m: "getProp data (js ''meals'') = Inr (Arr ms)" and
    u: "tl (requests (findRecipes exampleNumops twoMeals (idle ''egg''))) = urls" and
    e: "\<forall>i<min (length ms) 10.
         lookupUrl exampleNumops (ms ! i) = Inr (urls ! i) \<and>
         (\<exists>d. lookupResponse twoMeals i = Inr d \<and>
              reduce exampleNumops d =
                Inr (recipes (invoke exampleNumops twoMeals (idle ''egg'')) ! i))"
    by blast
  from d f have "data = Obj [(js ''meals'', Arr [candidate ''1'', candidate ''2''])]"
    by simp
  with m have ms: "ms = [candidate ''1'', candidate ''2'']"
    by simp
  from u q have us: "urls = [lookupUrlOf ''1'', lookupUrlOf ''2'']"
    by simp
  have "1 < min (length ms) 10"
    by (simp add: ms)
  with e have "lookupUrl exampleNumops (ms ! 1) = Inr (urls ! 1) \<and>
      (\<exists>d. lookupResponse twoMeals 1 = Inr d \<and>
           reduce exampleNumops d =
             Inr (recipes (invoke exampleNumops twoMeals (idle ''egg'')) ! 1))"
    by blast
  with ms us l r have "lookupUrl exampleNumops (candidate ''2'') = Inr (lookupUrlOf ''2'')"
    and "reduce exampleNumops (detail ''2'' ''Mix well'') = Inr (twoRecipes ! 1)"
    by simp_all
  with h r q l show ?thesis
    by (intro conjI)
qed

section \<open>The committed state at the requests\<close>

lemma concat_startTurn: "concat (startTurn es ts) = es @ concat ts"
  by (cases ts) (simp_all add: startTurn_def)

lemma endTurn_Cons: "endTurn (t # ts) es = (if ts = [] then [t @ es] else t # endTurn ts es)"
  by (cases ts rule: rev_cases) (simp_all add: endTurn_def)

lemma concat_endTurn: "concat (endTurn ts es) = concat ts @ es"
  by (cases ts rule: rev_cases) (simp_all add: endTurn_def)

lemma detailTurns_flat:
  "detailStage N net limited =
     (concat (fst (detailTurns N net limited)), snd (detailTurns N net limited))"
  by (simp add: detailStage_def detailTurns_def awaiting_def emit_def
      split: prod.splits option.splits sum.splits)

lemma searchTurns_flat:
  "searchStage N net data =
     (concat (fst (searchTurns N net data)), snd (searchTurns N net data))"
  by (simp add: searchStage_def searchTurns_def detailTurns_flat split: sum.splits)

lemma tryTurns_flat:
  "tryBody N net q = (concat (fst (tryTurns N net q)), snd (tryTurns N net q))"
  by (simp add: tryBody_def tryTurns_def searchTurns_flat awaiting_def emit_def split: sum.splits)

lemma findRecipesTurns_flat: "concat (findRecipesTurns N net s) = findRecipes N net s"
  by (simp add: findRecipesTurns_def findRecipes_def Let_def concat_startTurn
      catchFinallyTurns_def concat_endTurn catchFinally_def tryTurns_flat)

lemma detailTurns_shape:
  "\<exists>urls ts. fst (detailTurns N net limited) = map Fetch urls # ts \<and>
             (\<forall>u. Fetch u \<notin> set (concat ts))"
  by (auto simp: detailTurns_def awaiting_def split: prod.splits option.splits sum.splits)

lemma searchTurns_shape:
  "\<exists>urls y ts. fst (searchTurns N net data) = (map Fetch urls @ y) # ts \<and>
               (\<forall>u. Fetch u \<notin> set y) \<and> (\<forall>u. Fetch u \<notin> set (concat ts))"
proof -
  have none: "\<And>es :: 'a event list. (\<forall>u. Fetch u \<notin> set es) \<Longrightarrow>
      \<exists>urls y ts. [es] = (map Fetch urls @ y) # ts \<and>
        (\<forall>u. Fetch u \<notin> set y) \<and> (\<forall>u. Fetch u \<notin> set (concat ts))"
  proof -
    fix es :: "'a event list" assume "\<forall>u. Fetch u \<notin> set es"
    then have "[es] = (map Fetch [] @ es) # [] \<and>
        (\<forall>u. Fetch u \<notin> set es) \<and> (\<forall>u. Fetch u \<notin> set (concat ([] :: 'a event list list)))"
      by simp
    then show "\<exists>urls y ts. [es] = (map Fetch urls @ y) # ts \<and>
        (\<forall>u. Fetch u \<notin> set y) \<and> (\<forall>u. Fetch u \<notin> set (concat ts))"
      by blast
  qed
  show ?thesis
  proof (cases "getProp data (js ''meals'')")
    case (Inl e)
    then have "fst (searchTurns N net data) = [[]]"
      by (simp add: searchTurns_def)
    with none [of "[]"] show ?thesis by simp
  next
    case (Inr meals)
    show ?thesis
    proof (cases "truthy N meals")
      case False
      with Inr have "fst (searchTurns N net data) =
          [[SetRecipes [], SetError (Some noRecipesMessage), SetLoading False]]"
        by (simp add: searchTurns_def)
      with none [of "[SetRecipes [], SetError (Some noRecipesMessage), SetLoading False]"]
      show ?thesis by simp
    next
      case True
      show ?thesis
      proof (cases "limitedOf meals")
        case (Inl e)
        with Inr True have "fst (searchTurns N net data) = [[]]"
          by (simp add: searchTurns_def)
        with none [of "[]"] show ?thesis by simp
      next
        case limited: (Inr limited)
        with Inr True have "searchTurns N net data = detailTurns N net limited"
          by (simp add: searchTurns_def)
        moreover from detailTurns_shape [of N net limited] obtain urls ts where
          "fst (detailTurns N net limited) = (map Fetch urls @ []) # ts"
          "\<forall>u. Fetch u \<notin> set (concat ts)"
          by auto
        ultimately have "fst (searchTurns N net data) = (map Fetch urls @ []) # ts \<and>
            (\<forall>u. Fetch u \<notin> set ([] :: 'a event list)) \<and> (\<forall>u. Fetch u \<notin> set (concat ts))"
          by simp
        then show ?thesis by blast
      qed
    qed
  qed
qed

lemma tryTurns_shape:
  "(\<exists>e. tryTurns N net q = ([[]], Throw e)) \<or>
   (\<exists>encoded urls y ts c.
      tryTurns N net q = ([Fetch (filterUrl encoded)] # (map Fetch urls @ y) # ts, c) \<and>
      (\<forall>u. Fetch u \<notin> set y) \<and> (\<forall>u. Fetch u \<notin> set (concat ts)))"
proof (cases "encodeURIComponent q")
  case (Inl e)
  then show ?thesis by (simp add: tryTurns_def)
next
  case (Inr encoded)
  show ?thesis
  proof (cases "filterResponse net")
    case (Inl e)
    with Inr have "tryTurns N net q =
        ([Fetch (filterUrl encoded)] # (map Fetch [] @ []) # [], Throw e) \<and>
        (\<forall>u. Fetch u \<notin> set ([] :: 'a event list)) \<and>
        (\<forall>u. Fetch u \<notin> set (concat ([] :: 'a event list list)))"
      by (simp add: tryTurns_def awaiting_def)
    then show ?thesis by blast
  next
    case data: (Inr data)
    from searchTurns_shape [of N net data] obtain urls y ts where
      "fst (searchTurns N net data) = (map Fetch urls @ y) # ts" and
      n: "\<forall>u. Fetch u \<notin> set y" "\<forall>u. Fetch u \<notin> set (concat ts)"
      by blast
    with Inr data have "tryTurns N net q =
        ([Fetch (filterUrl encoded)] # (map Fetch urls @ y) # ts, snd (searchTurns N net data))"
      by (simp add: tryTurns_def awaiting_def)
    with n show ?thesis by blast
  qed
qed

lemma observed_events: "(s', e) \<in> set (observed s ts) \<Longrightarrow> e \<in> set (concat ts)"
  by (induction ts arbitrary: s) auto

lemma observed_first:
  assumes "(s', e) \<in> set (observed s (t # ts))" and "e \<notin> set (concat ts)"
  shows "s' = s"
  using assms observed_events [of s' e "after s t" ts] by auto

lemma endTurn_later:
  assumes "\<forall>u. Fetch u \<notin> set y" and "\<forall>u. Fetch u \<notin> set (concat ts)"
    and "\<forall>u. Fetch u \<notin> set es"
  shows "\<exists>y' ts'. endTurn ((map Fetch urls @ y) # ts) es = (map Fetch urls @ y') # ts' \<and>
           (\<forall>u. Fetch u \<notin> set y') \<and> (\<forall>u. Fetch u \<notin> set (concat ts'))"
proof (cases "ts = []")
  case True
  then have "endTurn ((map Fetch urls @ y) # ts) es = (map Fetch urls @ (y @ es)) # [] \<and>
      (\<forall>u. Fetch u \<notin> set (y @ es)) \<and> (\<forall>u. Fetch u \<notin> set (concat ([] :: 'a event list list)))"
    using assms(1,3) by (simp add: endTurn_Cons)
  then show ?thesis by blast
next
  case False
  then have "endTurn ((map Fetch urls @ y) # ts) es = (map Fetch urls @ y) # endTurn ts es"
    by (simp add: endTurn_Cons)
  moreover have "\<forall>u. Fetch u \<notin> set (concat (endTurn ts es))"
    using assms(2,3) by (simp add: concat_endTurn)
  ultimately show ?thesis
    using assms(1) by blast
qed

text \<open>
  The turns of a call. The first turn starts at most the filter request; in the turn
  after it the requests come before every setter call, and the turns after that start no
  request. So a request of a later turn starts in the state committed before its turn,
  whether React commits the updates of a later turn at its end, as in the model, or each
  of them at once, as the versions of React before 18 do outside an event handler.
\<close>

lemma findRecipesTurns_shape:
  "\<exists>t ts. findRecipesTurns N net s = t # ts \<and>
          requests t = take 1 (requests (findRecipes N net s)) \<and>
          (ts = [] \<or>
           (\<exists>urls y ts'. ts = (map Fetch urls @ y) # ts' \<and>
              error (after s t) = None \<and> recipes (after s t) = [] \<and> loading (after s t) \<and>
              (\<forall>u. Fetch u \<notin> set y) \<and> (\<forall>u. Fetch u \<notin> set (concat ts'))))"
proof (cases "trim (ingredients s) = []")
  case True
  then have "findRecipesTurns N net s = [SetError None, SetError (Some emptyInputMessage)] # []"
    and "findRecipes N net s = [SetError None, SetError (Some emptyInputMessage)]"
    by (simp_all add: findRecipesTurns_def findRecipes_def)
  then show ?thesis by simp
next
  case False
  let ?pre = "[SetError None, SetLoading True, SetRecipes []] :: 'a event list"
  let ?r = "tryTurns N net (trim (ingredients s))"
  let ?tail = "(case snd ?r of Throw e \<Rightarrow> [ConsoleError, SetError (Some fetchErrorMessage)]
      | _ \<Rightarrow> []) @ [SetLoading False]"
  have tail: "\<forall>u. Fetch u \<notin> set ?tail"
    by (cases "snd ?r") simp_all
  have turns: "findRecipesTurns N net s = startTurn ?pre (endTurn (fst ?r) ?tail)"
    using False by (simp add: findRecipesTurns_def catchFinallyTurns_def Let_def)
  from tryTurns_shape [of N net "trim (ingredients s)"] show ?thesis
  proof (elim disjE exE conjE)
    fix e assume "?r = ([[]], Throw e)"
    then have t: "findRecipesTurns N net s =
        (?pre @ [ConsoleError, SetError (Some fetchErrorMessage), SetLoading False]) # []"
      by (simp add: turns endTurn_Cons startTurn_def)
    have "findRecipes N net s =
        ?pre @ [ConsoleError, SetError (Some fetchErrorMessage), SetLoading False]"
      using findRecipesTurns_flat [of N net s] by (simp add: t)
    with t show ?thesis by simp
  next
    fix encoded urls y ts c
    assume r: "?r = ([Fetch (filterUrl encoded)] # (map Fetch urls @ y) # ts, c)"
      and n: "\<forall>u. Fetch u \<notin> set y" "\<forall>u. Fetch u \<notin> set (concat ts)"
    from endTurn_later [OF n tail, of urls] obtain y' ts' where
      e: "endTurn ((map Fetch urls @ y) # ts) ?tail = (map Fetch urls @ y') # ts'" and
      n': "\<forall>u. Fetch u \<notin> set y'" "\<forall>u. Fetch u \<notin> set (concat ts')"
      by blast
    have f: "findRecipesTurns N net s =
        (?pre @ [Fetch (filterUrl encoded)]) # (map Fetch urls @ y') # ts'"
      using e by (simp add: turns r endTurn_Cons startTurn_def)
    have "findRecipes N net s =
        ?pre @ [Fetch (filterUrl encoded)] @ concat ((map Fetch urls @ y') # ts')"
      using findRecipesTurns_flat [of N net s] by (simp add: f)
    then have q: "requests (?pre @ [Fetch (filterUrl encoded)]) =
        take 1 (requests (findRecipes N net s))"
      by simp
    have a: "error (after s (?pre @ [Fetch (filterUrl encoded)])) = None \<and>
        recipes (after s (?pre @ [Fetch (filterUrl encoded)])) = [] \<and>
        loading (after s (?pre @ [Fetch (filterUrl encoded)]))"
      by (simp add: after_Cons after_Nil)
    from f q a n' show ?thesis by blast
  qed
qed

lemma later_requests_see_cleared:
  assumes "ts = [] \<or>
           (\<exists>urls y ts'. ts = (map Fetch urls @ y) # ts' \<and>
              error s0 = None \<and> recipes s0 = [] \<and> loading s0 \<and>
              (\<forall>u. Fetch u \<notin> set y) \<and> (\<forall>u. Fetch u \<notin> set (concat ts')))"
    and "(s', Fetch u) \<in> set (observed s0 ts)"
  shows "error s' = None \<and> recipes s' = [] \<and> loading s'"
proof (cases "ts = []")
  case True
  with assms(2) show ?thesis by simp
next
  case False
  with assms(1) obtain urls y ts' where ts: "ts = (map Fetch urls @ y) # ts'"
    and c: "error s0 = None \<and> recipes s0 = [] \<and> loading s0"
    and n: "\<forall>u. Fetch u \<notin> set (concat ts')"
    by blast
  from n have "Fetch u \<notin> set (concat ts')"
    by simp
  with assms(2) have "s' = s0"
    unfolding ts by (rule observed_first)
  with c show ?thesis by simp
qed

lemma twoMeals_turns:
  assumes "ingredients s = js ''egg''"
  shows "findRecipesTurns exampleNumops twoMeals s =
           [[SetError None, SetLoading True, SetRecipes [], Fetch (filterUrl (js ''egg''))],
            [Fetch (lookupUrlOf ''1''), Fetch (lookupUrlOf ''2'')],
            [SetRecipes twoRecipes, SetLoading False]]"
  using assms
  by (simp add: findRecipesTurns_def twoMeals_def exampleNumops_def
    js_def trim_def isWhiteSpace_def tryTurns_def uriUnreserved_def filterUrl_def awaiting_def
    searchTurns_def limitedOf_def detailTurns_def candidate_def lookupUrl_def andThen_def
    promiseAll_def detail_def reduce_def reduceMeal_def summarise_def split_def endsWith_def
    catchFinallyTurns_def endTurn_def startTurn_def twoRecipes_def lookupUrlOf_def)

lemma typedAgain_state:
  "typedAgain =
     \<lparr>ingredients = js ''egg'', loading = False, recipes = twoRecipes,
      error = Some (js ''Please enter at least one ingredient'')\<rparr>"
proof -
  let ?s = "setIngredients [] (invoke exampleNumops twoMeals (idle ''egg''))"
  have "list_all isWhiteSpace (ingredients ?s)"
    by (simp add: setIngredients_def)
  then have "findRecipes exampleNumops twoMeals ?s =
      [SetError None, SetError (Some emptyInputMessage)]"
    by (rule findRecipes_rejected)
  then have "invoke exampleNumops twoMeals ?s = ?s\<lparr>error := Some emptyInputMessage\<rparr>"
    by (simp add: invoke_def after_Cons after_Nil)
  then have "typedAgain =
      setIngredients (js ''egg'')
        ((setIngredients [] ((idle ''egg'')\<lparr>recipes := twoRecipes\<rparr>))
           \<lparr>error := Some emptyInputMessage\<rparr>)"
    by (simp add: typedAgain_def twoMeals_invoke)
  then show ?thesis
    by (simp add: setIngredients_def emptyInputMessage_def idle_def)
qed

theorem stale_state_at_filter_request_counterexample:
  "(typedAgain, Fetch (filterUrl (js ''egg''))) \<in>
     set (observed typedAgain (findRecipesTurns exampleNumops twoMeals typedAgain)) \<and>
   error typedAgain = Some (js ''Please enter at least one ingredient'') \<and>
   recipes typedAgain = twoRecipes \<and>
   twoRecipes \<noteq> []"
proof -
  have i: "ingredients typedAgain = js ''egg''"
    by (simp add: typedAgain_state)
  have "(typedAgain, Fetch (filterUrl (js ''egg''))) \<in>
      set (observed typedAgain (findRecipesTurns exampleNumops twoMeals typedAgain))"
    by (simp add: twoMeals_turns [OF i])
  moreover have "error typedAgain = Some (js ''Please enter at least one ingredient'')"
    and "recipes typedAgain = twoRecipes"
    by (simp_all add: typedAgain_state)
  moreover have "twoRecipes \<noteq> []"
    by (simp add: twoRecipes_def)
  ultimately show ?thesis
    by (intro conjI)
qed

text \<open>
  C8, amended. In every call, the setter calls that clear \<open>error\<close> and \<open>results\<close> and set
  \<open>loading\<close> come before every call of \<open>fetch\<close>, and no other setter call does. The
  first turn of the call, which runs in the press handler, starts at most the filter
  request, and its events happen while the committed state is still the one from before
  the call: React commits the cleared state when this turn has ended. Every later
  request, so every lookup request, starts while the committed state has \<open>error\<close> cleared,
  \<open>results\<close> empty and \<open>loading\<close> true.
\<close>

theorem requests_and_committed_state:
  "concat (findRecipesTurns N net s) = findRecipes N net s \<and>
   (findRecipes N net s = es1 @ Fetch url # es2 \<longrightarrow>
      error (after s es1) = None \<and> recipes (after s es1) = [] \<and> loading (after s es1)) \<and>
   (\<exists>t ts. findRecipesTurns N net s = t # ts \<and>
      observed s (findRecipesTurns N net s) = map (Pair s) t @ observed (after s t) ts \<and>
      requests t = take 1 (requests (findRecipes N net s)) \<and>
      (\<forall>s' u. (s', Fetch u) \<in> set (observed (after s t) ts) \<longrightarrow>
         error s' = None \<and> recipes s' = [] \<and> loading s'))"
proof -
  have p1: "concat (findRecipesTurns N net s) = findRecipes N net s"
    by (rule findRecipesTurns_flat)
  have p2: "findRecipes N net s = es1 @ Fetch url # es2 \<longrightarrow>
      error (after s es1) = None \<and> recipes (after s es1) = [] \<and> loading (after s es1)"
    using clearing_precedes_fetch [of N net s es1 url es2] by (rule impI)
  from findRecipesTurns_shape [of N net s] obtain t ts where
    f: "findRecipesTurns N net s = t # ts" and
    q: "requests t = take 1 (requests (findRecipes N net s))" and
    l: "ts = [] \<or>
        (\<exists>urls y ts'. ts = (map Fetch urls @ y) # ts' \<and>
           error (after s t) = None \<and> recipes (after s t) = [] \<and> loading (after s t) \<and>
           (\<forall>u. Fetch u \<notin> set y) \<and> (\<forall>u. Fetch u \<notin> set (concat ts')))"
    by blast
  have o: "\<forall>s' u. (s', Fetch u) \<in> set (observed (after s t) ts) \<longrightarrow>
         error s' = None \<and> recipes s' = [] \<and> loading s'"
    using later_requests_see_cleared [OF l] by blast
  have "observed s (findRecipesTurns N net s) = map (Pair s) t @ observed (after s t) ts"
    by (simp add: f)
  with f q o have p3: "\<exists>t ts. findRecipesTurns N net s = t # ts \<and>
      observed s (findRecipesTurns N net s) = map (Pair s) t @ observed (after s t) ts \<and>
      requests t = take 1 (requests (findRecipes N net s)) \<and>
      (\<forall>s' u. (s', Fetch u) \<in> set (observed (after s t) ts) \<longrightarrow>
         error s' = None \<and> recipes s' = [] \<and> loading s')"
    by blast
  show ?thesis
    by (rule conjI [OF p1 conjI [OF p2 p3]])
qed

theorem requests_and_committed_state_witness:
  "findRecipes exampleNumops twoMeals typedAgain =
     [SetError None, SetLoading True, SetRecipes []] @
     Fetch (filterUrl (js ''egg'')) #
     [Fetch (lookupUrlOf ''1''), Fetch (lookupUrlOf ''2''), SetRecipes twoRecipes, SetLoading False] \<and>
   error (after typedAgain [SetError None, SetLoading True, SetRecipes []]) = None \<and>
   recipes (after typedAgain [SetError None, SetLoading True, SetRecipes []]) = [] \<and>
   loading (after typedAgain [SetError None, SetLoading True, SetRecipes []]) \<and>
   findRecipesTurns exampleNumops twoMeals typedAgain =
     [[SetError None, SetLoading True, SetRecipes [], Fetch (filterUrl (js ''egg''))],
      [Fetch (lookupUrlOf ''1''), Fetch (lookupUrlOf ''2'')],
      [SetRecipes twoRecipes, SetLoading False]] \<and>
   (after typedAgain [SetError None, SetLoading True, SetRecipes [], Fetch (filterUrl (js ''egg''))],
    Fetch (lookupUrlOf ''2'')) \<in>
     set (observed
            (after typedAgain
               [SetError None, SetLoading True, SetRecipes [], Fetch (filterUrl (js ''egg''))])
            [[Fetch (lookupUrlOf ''1''), Fetch (lookupUrlOf ''2'')],
             [SetRecipes twoRecipes, SetLoading False]]) \<and>
   error (after typedAgain
            [SetError None, SetLoading True, SetRecipes [], Fetch (filterUrl (js ''egg''))]) = None \<and>
   recipes (after typedAgain
              [SetError None, SetLoading True, SetRecipes [], Fetch (filterUrl (js ''egg''))]) = [] \<and>
   loading (after typedAgain
              [SetError None, SetLoading True, SetRecipes [], Fetch (filterUrl (js ''egg''))])"
proof -
  let ?t1 = "[SetError None, SetLoading True, SetRecipes [], Fetch (filterUrl (js ''egg''))]
    :: unit event list"
  let ?ts = "[[Fetch (lookupUrlOf ''1''), Fetch (lookupUrlOf ''2'')],
    [SetRecipes twoRecipes, SetLoading False]] :: unit event list list"
  have i: "ingredients typedAgain = js ''egg''"
    by (simp add: typedAgain_state)
  have h: "findRecipes exampleNumops twoMeals typedAgain =
     [SetError None, SetLoading True, SetRecipes []] @
     Fetch (filterUrl (js ''egg'')) #
     [Fetch (lookupUrlOf ''1''), Fetch (lookupUrlOf ''2''), SetRecipes twoRecipes, SetLoading False]"
    using twoMeals_events [OF i] by simp
  note inst = requests_and_committed_state [of exampleNumops twoMeals typedAgain
      "[SetError None, SetLoading True, SetRecipes []]" "filterUrl (js ''egg'')"
      "[Fetch (lookupUrlOf ''1''), Fetch (lookupUrlOf ''2''), SetRecipes twoRecipes, SetLoading False]"]
  from inst h have c2:
    "error (after typedAgain [SetError None, SetLoading True, SetRecipes []]) = None \<and>
     recipes (after typedAgain [SetError None, SetLoading True, SetRecipes []]) = [] \<and>
     loading (after typedAgain [SetError None, SetLoading True, SetRecipes []])"
    by (elim conjE) (rule mp)
  have g: "findRecipesTurns exampleNumops twoMeals typedAgain = ?t1 # ?ts"
    by (simp add: twoMeals_turns [OF i])
  from inst obtain t ts where
    f: "findRecipesTurns exampleNumops twoMeals typedAgain = t # ts" and
    o: "\<forall>s' u. (s', Fetch u) \<in> set (observed (after typedAgain t) ts) \<longrightarrow>
         error s' = None \<and> recipes s' = [] \<and> loading s'"
    by blast
  from f g have t: "t = ?t1" and ts: "ts = ?ts"
    by simp_all
  have m: "(after typedAgain ?t1, Fetch (lookupUrlOf ''2'')) \<in> set (observed (after typedAgain ?t1) ?ts)"
    by simp
  with o have c3: "error (after typedAgain ?t1) = None \<and> recipes (after typedAgain ?t1) = [] \<and>
      loading (after typedAgain ?t1)"
    unfolding t ts by blast
  from h c2 g m c3 show ?thesis
    by (intro conjI) simp_all
qed

end
